theory Spec2Isabelle
  imports Main "HOL-Library.Multiset"
begin


section \<open>Event taxonomy (Types.ts)\<close>

text \<open>
  The enumeration \<open>FormEventTypes\<close> of Types.ts, one constructor per member, in the
  order of the source.
\<close>

datatype FormEventTypes =
    OnLoad | OnDataLoad | Loaded
  | OnSave | OnPostSave
  | OnChange
  | OnLookupTagClick | PreSearch
  | OnTabStateChange | OnTabExpand | OnTabCollapse
  | SubGridOnLoad | SubGridOnRecordSelect
  | OnReadyStateComplete
  | OnProcessStatusChange | OnPreProcessStatusChange | OnPreStageChange
  | OnStageChange | OnStageSelected
  | OnOutputChange
  | OnResultOpened | OnSelection | PostSearch

text \<open>The string value of each enum member, as interpolated into messages.\<close>

fun eventTypeValue :: "FormEventTypes \<Rightarrow> string" where
  "eventTypeValue OnLoad = ''OnLoad''"
| "eventTypeValue OnDataLoad = ''OnDataLoad''"
| "eventTypeValue Loaded = ''Loaded''"
| "eventTypeValue OnSave = ''OnSave''"
| "eventTypeValue OnPostSave = ''OnPostSave''"
| "eventTypeValue OnChange = ''OnChange''"
| "eventTypeValue OnLookupTagClick = ''OnLookupTagClick''"
| "eventTypeValue PreSearch = ''PreSearch''"
| "eventTypeValue OnTabStateChange = ''OnTabStateChange''"
| "eventTypeValue OnTabExpand = ''OnTabExpand''"
| "eventTypeValue OnTabCollapse = ''OnTabCollapse''"
| "eventTypeValue SubGridOnLoad = ''SubGridOnLoad''"
| "eventTypeValue SubGridOnRecordSelect = ''SubGridOnRecordSelect''"
| "eventTypeValue OnReadyStateComplete = ''OnReadyStateComplete''"
| "eventTypeValue OnProcessStatusChange = ''OnProcessStatusChange''"
| "eventTypeValue OnPreProcessStatusChange = ''OnPreProcessStatusChange''"
| "eventTypeValue OnPreStageChange = ''OnPreStageChange''"
| "eventTypeValue OnStageChange = ''OnStageChange''"
| "eventTypeValue OnStageSelected = ''OnStageSelected''"
| "eventTypeValue OnOutputChange = ''OnOutputChange''"
| "eventTypeValue OnResultOpened = ''OnResultOpened''"
| "eventTypeValue OnSelection = ''OnSelection''"
| "eventTypeValue PostSearch = ''PostSearch''"

text \<open>
  The union type \<open>ComponentEventType\<close>; \<open>GlobalEventType\<close> is its complement
  in the enumeration.
\<close>

fun isComponentEventType :: "FormEventTypes \<Rightarrow> bool" where
  "isComponentEventType OnChange = True"
| "isComponentEventType OnLookupTagClick = True"
| "isComponentEventType PreSearch = True"
| "isComponentEventType OnTabStateChange = True"
| "isComponentEventType OnTabExpand = True"
| "isComponentEventType OnTabCollapse = True"
| "isComponentEventType SubGridOnLoad = True"
| "isComponentEventType SubGridOnRecordSelect = True"
| "isComponentEventType OnReadyStateComplete = True"
| "isComponentEventType OnOutputChange = True"
| "isComponentEventType OnResultOpened = True"
| "isComponentEventType OnSelection = True"
| "isComponentEventType PostSearch = True"
| "isComponentEventType _ = False"

text \<open>
  \<open>XrmEnum.FormType\<close>, with the members that \<open>FormTypeLabel\<close> lists, and the
  label table itself.
\<close>

datatype FormType =
  Undefined | Create | Update | ReadOnly | Disabled | BulkEdit | QuickCreate | ReadOptimized

fun FormTypeLabel :: "FormType \<Rightarrow> string" where
  "FormTypeLabel Undefined = ''Undefined''"
| "FormTypeLabel Create = ''Create''"
| "FormTypeLabel Update = ''Update''"
| "FormTypeLabel ReadOnly = ''ReadOnly''"
| "FormTypeLabel Disabled = ''Disabled''"
| "FormTypeLabel BulkEdit = ''BulkEdit''"
| "FormTypeLabel QuickCreate = ''QuickCreate''"
| "FormTypeLabel ReadOptimized = ''ReadOptimized''"

text \<open>
  \<open>EventDetail\<close> is the union of \<open>{type}\<close> and \<open>{type, componentNames}\<close>. At run
  time the two shapes are told apart by the presence of the property
  \<open>componentNames\<close> (\<open>isComponentEventDetail\<close>), so the record carries it as an
  option: \<open>None\<close> is an object without the property.
\<close>

record EventDetail =
  type :: FormEventTypes
  componentNames :: "string list option"

record FormEventDetails =
  functionName :: string
  formTypes :: "FormType list option"
  events :: "EventDetail list"

definition isComponentEventDetail :: "EventDetail \<Rightarrow> bool" where
  "isComponentEventDetail eventDetail = (componentNames eventDetail \<noteq> None)"

definition isMatchingComponentEvent :: "EventDetail \<Rightarrow> FormEventTypes \<Rightarrow> bool" where
  "isMatchingComponentEvent eventDetail t =
     (type eventDetail = t \<and> isComponentEventDetail eventDetail)"

text \<open>
  What the static types \<open>GlobalEventDetail\<close> and \<open>ComponentEventDetail\<close> demand of
  an event detail: the name list is there exactly for the component kinds.
\<close>

definition wellTyped :: "EventDetail \<Rightarrow> bool" where
  "wellTyped eventDetail =
     (isComponentEventDetail eventDetail = isComponentEventType (type eventDetail))"


section \<open>Binding registry (Registry.ts)\<close>

text \<open>
  \<open>eventRegistry\<close> is a \<open>Map\<close> from the constructor function (a reference, here
  any type \<open>'c\<close>) to the array of the class's entries. The arrays and the entry
  objects are mutated in place by the source; the model returns the updated
  registry and stores values. The decorators build a fresh event object at each
  application and the source never mutates a name array in place (a merge assigns a
  new array), so values and references agree for everything the decorators do; a
  caller that hands one object to two entries would see a later merge through both.
  The profiler calls (\<open>performance.now\<close>, \<open>DecoratorProfiler.record\<close>) do not
  touch the registry and are left out.
\<close>

type_synonym 'c eventRegistry = "'c \<rightharpoonup> FormEventDetails list"

definition getFormEvents :: "'c eventRegistry \<Rightarrow> 'c \<Rightarrow> FormEventDetails list" where
  "getFormEvents eventRegistry ctor =
     (case eventRegistry ctor of None \<Rightarrow> [] | Some evs \<Rightarrow> evs)"

definition mergeUnique :: "'a list \<Rightarrow> 'a list \<Rightarrow> 'a list" where
  "mergeUnique existing incoming = existing @ filter (\<lambda>i. i \<notin> set existing) incoming"

text \<open>
  \<open>Array.prototype.find\<close> is \<open>List.find\<close>. The object it returns is then mutated
  through the reference: \<open>updateFound\<close> rewrites the first element that
  satisfies the predicate, which is that object.
\<close>

fun updateFound :: "('a \<Rightarrow> bool) \<Rightarrow> ('a \<Rightarrow> 'a) \<Rightarrow> 'a list \<Rightarrow> 'a list" where
  "updateFound P f [] = []"
| "updateFound P f (x # xs) = (if P x then f x # xs else x # updateFound P f xs)"

text \<open>The branch \<open>if (eventDetail)\<close> of an entry that exists already.\<close>

definition upsertEvent :: "EventDetail \<Rightarrow> EventDetail list \<Rightarrow> EventDetail list" where
  "upsertEvent eventDetail evs =
     (case find (\<lambda>e. type e = type eventDetail) evs of
        None \<Rightarrow> evs @ [eventDetail]
      | Some existingEventForFunctionName \<Rightarrow>
          (case (componentNames existingEventForFunctionName, componentNames eventDetail) of
             (Some existingNames, Some incomingNames) \<Rightarrow>
               updateFound (\<lambda>e. type e = type eventDetail)
                 (\<lambda>e. e\<lparr>componentNames := Some (mergeUnique existingNames incomingNames)\<rparr>) evs
           | _ \<Rightarrow> evs))"

text \<open>The whole \<open>else\<close> branch: the entry \<open>formEvent\<close> after the call.\<close>

definition upsertExisting ::
  "EventDetail option \<Rightarrow> FormType list option \<Rightarrow> FormEventDetails \<Rightarrow> FormEventDetails" where
  "upsertExisting eventDetail fts formEvent =
     (let formEvent1 =
            (case eventDetail of
               None \<Rightarrow> formEvent
             | Some ed \<Rightarrow> formEvent\<lparr>events := upsertEvent ed (events formEvent)\<rparr>)
      in case fts of
           None \<Rightarrow> formEvent1
         | Some incoming \<Rightarrow>
             formEvent1\<lparr>formTypes :=
               Some (mergeUnique (case formTypes formEvent1 of None \<Rightarrow> [] | Some ex \<Rightarrow> ex)
                       incoming)\<rparr>)"

definition upsertFunctionEvent ::
  "'c \<Rightarrow> string \<Rightarrow> EventDetail option \<Rightarrow> FormType list option \<Rightarrow>
   'c eventRegistry \<Rightarrow> 'c eventRegistry" where
  "upsertFunctionEvent ctor fname eventDetail fts eventRegistry =
     (let formEvents = getFormEvents eventRegistry ctor in
      case find (\<lambda>event. functionName event = fname) formEvents of
        None \<Rightarrow>
          eventRegistry(ctor \<mapsto> formEvents @
            [\<lparr>functionName = fname, formTypes = fts,
              events = (case eventDetail of None \<Rightarrow> [] | Some ed \<Rightarrow> [ed])\<rparr>])
      | Some formEvent \<Rightarrow>
          eventRegistry(ctor \<mapsto>
            updateFound (\<lambda>event. functionName event = fname)
              (upsertExisting eventDetail fts) formEvents))"

text \<open>
  One call of \<open>upsertFunctionEvent\<close> as data (class, method, event detail, form
  types), and a run of calls in order.
\<close>

type_synonym 'c upsertCall = "'c \<times> string \<times> EventDetail option \<times> FormType list option"

fun upsertCall :: "'c upsertCall \<Rightarrow> 'c eventRegistry \<Rightarrow> 'c eventRegistry" where
  "upsertCall (ctor, fname, eventDetail, fts) eventRegistry =
     upsertFunctionEvent ctor fname eventDetail fts eventRegistry"

definition upsertAll :: "'c upsertCall list \<Rightarrow> 'c eventRegistry \<Rightarrow> 'c eventRegistry" where
  "upsertAll calls eventRegistry = fold upsertCall calls eventRegistry"

text \<open>Observations on the registry that the properties below are stated with.\<close>

definition methodBinding :: "'c eventRegistry \<Rightarrow> 'c \<Rightarrow> string \<Rightarrow> FormEventDetails option" where
  "methodBinding eventRegistry ctor fname =
     find (\<lambda>event. functionName event = fname) (getFormEvents eventRegistry ctor)"

definition bindingKinds :: "FormEventDetails option \<Rightarrow> FormEventTypes set" where
  "bindingKinds b = (case b of None \<Rightarrow> {} | Some fe \<Rightarrow> type ` set (events fe))"

definition bindingNames :: "FormEventDetails option \<Rightarrow> FormEventTypes \<Rightarrow> string set option option" where
  "bindingNames b k =
     (case b of
        None \<Rightarrow> None
      | Some fe \<Rightarrow> map_option (\<lambda>e. map_option set (componentNames e))
                    (find (\<lambda>e. type e = k) (events fe)))"

definition bindingModes :: "FormEventDetails option \<Rightarrow> FormType set option" where
  "bindingModes b = (case b of None \<Rightarrow> None | Some fe \<Rightarrow> map_option set (formTypes fe))"


section \<open>Warning aggregator (Dispatcher.ts)\<close>

text \<open>
  \<open>warningCounts\<close> is a \<open>Map\<close> from message to count. A JavaScript \<open>Map\<close> iterates
  in insertion order and \<open>set\<close> on a present key keeps the key's place, so the
  model is an association list with \<open>mapSet\<close>. Counts are natural numbers.
\<close>

type_synonym warningCounts = "(string \<times> nat) list"

fun mapSet :: "'k \<Rightarrow> 'v \<Rightarrow> ('k \<times> 'v) list \<Rightarrow> ('k \<times> 'v) list" where
  "mapSet k v [] = [(k, v)]"
| "mapSet k v ((k', v') # kvs) =
     (if k' = k then (k, v) # kvs else (k', v') # mapSet k v kvs)"

definition logGroupedWarning :: "string \<Rightarrow> warningCounts \<Rightarrow> warningCounts" where
  "logGroupedWarning message wc =
     (let cnt = (case map_of wc message of None \<Rightarrow> 0 | Some n \<Rightarrow> n)
      in mapSet message (cnt + 1) wc)"

text \<open>Decimal rendering of a count, as template interpolation prints it.\<close>

definition digitChar :: "nat \<Rightarrow> char" where
  "digitChar d =
     (if d = 0 then CHR ''0'' else if d = 1 then CHR ''1'' else if d = 2 then CHR ''2''
      else if d = 3 then CHR ''3'' else if d = 4 then CHR ''4'' else if d = 5 then CHR ''5''
      else if d = 6 then CHR ''6'' else if d = 7 then CHR ''7'' else if d = 8 then CHR ''8''
      else CHR ''9'')"

fun showNat :: "nat \<Rightarrow> string" where
  "showNat n =
     (if n < 10 then [digitChar n] else showNat (n div 10) @ [digitChar (n mod 10)])"

declare showNat.simps [simp del]

definition warningLine :: "string \<times> nat \<Rightarrow> string" where
  "warningLine entry =
     (case entry of (msg, cnt) \<Rightarrow>
        (if cnt > 1 then ''('' @ showNat cnt @ ''x)'' else '''') @ '' '' @ msg)"

text \<open>
  \<open>flushGroupedWarnings\<close> returns the lines handed to \<open>warnMessage\<close>, in order, and
  the cleared map.
\<close>

definition flushGroupedWarnings :: "warningCounts \<Rightarrow> string list \<times> warningCounts" where
  "flushGroupedWarnings wc = (map warningLine wc, [])"

text \<open>The order of first occurrence of the elements of a list.\<close>

fun firstOccurrences :: "'a list \<Rightarrow> 'a list" where
  "firstOccurrences [] = []"
| "firstOccurrences (x # xs) = x # filter (\<lambda>y. y \<noteq> x) (firstOccurrences xs)"


section \<open>Host form and handler instance (external collaborators)\<close>

text \<open>
  The form helper library is not part of the repository. The dispatcher uses its
  three accessors and its seven type predicates, and the method \<open>getName\<close> of the
  live components; they are the fields of \<open>FormContext\<close>, over any type \<open>'i\<close> of
  live components. \<open>formContext\<close> below is the value of
  \<open>ContextProvider.from(executionContext)\<close>.
\<close>

record 'i FormContext =
  getAttribute :: "string list \<Rightarrow> 'i list"
  getTab :: "string list \<Rightarrow> 'i list"
  getControl :: "string list \<Rightarrow> 'i list"
  isAttribute :: "'i \<Rightarrow> bool"
  isTabControl :: "'i \<Rightarrow> bool"
  isGridControl :: "'i \<Rightarrow> bool"
  isIframeControl :: "'i \<Rightarrow> bool"
  isKbSearchControl :: "'i \<Rightarrow> bool"
  isLookupControl :: "'i \<Rightarrow> bool"
  isStandardControl :: "'i \<Rightarrow> bool"
  getName :: "'i \<Rightarrow> string"

text \<open>
  \<open>Xrm.DisplayState\<close>, and what a tab-state event lets its listener read: the
  event source (possibly null) and the display state of a tab at that moment.
\<close>

datatype DisplayState = expanded | collapsed

record 'i EventContext =
  getEventSource :: "'i option"
  getDisplayState :: "'i \<Rightarrow> DisplayState"

text \<open>
  The value of \<open>instance[functionName]\<close>: a falsy value (\<open>undefined\<close> when there is
  no such member), a truthy value that is no function, or a function. Calling
  \<open>.bind\<close> on a truthy value that is no function throws a \<open>TypeError\<close>.
\<close>

datatype Member = Falsy | TruthyNonFunction | Function

datatype Error = TypeError

record 'c Instance =
  ctor :: 'c
  ctorName :: string
  member :: "string \<Rightarrow> Member"

text \<open>\<open>functionBindToInstance\<close>: the named method bound to the instance.\<close>

datatype Handler = BoundMethod string

text \<open>A call of a user handler with the execution context it was given.\<close>

datatype 'i Invocation = Invoke Handler "'i EventContext"

text \<open>
  The arrow function that \<open>_applyOnTabSpecificStateEvents\<close> hands to a tab's
  \<open>addTabStateChange\<close>, as the pair of variables it closes over:
  \<open>authorizedTabDisplayState\<close> and \<open>handler\<close>. Its body is \<open>fireListener\<close> below.
\<close>

datatype Listener = TabStateListener DisplayState Handler

text \<open>
  The subscription entry points of the form: those that take a handler, and the
  batch ones that take components and a handler.
\<close>

datatype FormOp =
    addOnDataLoad | addOnLoad | addLoaded | addOnSave | addOnPostSave
  | addOnProcessStatusChange | addOnPreProcessStatusChange | addOnPreStageChange
  | addOnStageChange | addOnStageSelected

datatype BatchOp =
    addTabStateChange | addOnChange | addOnLookupTagClick | addPreSearch
  | addSubGridOnLoad | addSubGridOnRecordSelect | addOnReadyStateComplete
  | addOnOutputChange | addOnResultOpened | addOnSelection | addOnPostSearch

text \<open>
  A call made on the host: \<open>formContext[op](handler)\<close>,
  \<open>formContext.op(items, handler)\<close>, or \<open>tabControl.addTabStateChange(listener)\<close>
  on one tab.
\<close>

datatype 'i HostCall =
    FormCall FormOp Handler
  | BatchCall BatchOp "'i list" Handler
  | TabCall 'i Listener

text \<open>
  The state a dispatch run works on: the calls made on the host so far, the
  module-level \<open>warningCounts\<close>, and the lines given to \<open>warnMessage\<close>.
\<close>

record 'i DispatchState =
  calls :: "'i HostCall list"
  warningCounts :: warningCounts
  warned :: "string list"

type_synonym 'i Result = "Error \<times> 'i DispatchState + 'i DispatchState"


section \<open>Dispatcher (Dispatcher.ts)\<close>

text \<open>A \<open>for ... of\<close> loop whose body may throw: the first throw ends the loop.\<close>

fun forEach :: "('a \<Rightarrow> 's \<Rightarrow> 'e \<times> 's + 's) \<Rightarrow> 'a list \<Rightarrow> 's \<Rightarrow> 'e \<times> 's + 's" where
  "forEach body [] s = Inr s"
| "forEach body (x # xs) s =
     (case body x s of Inl err \<Rightarrow> Inl err | Inr s' \<Rightarrow> forEach body xs s')"

text \<open>\<open>Array.prototype.join\<close> on strings.\<close>

fun joinStrings :: "string \<Rightarrow> string list \<Rightarrow> string" where
  "joinStrings sep [] = []"
| "joinStrings sep [x] = x"
| "joinStrings sep (x # y # ys) = x @ sep @ joinStrings sep (y # ys)"

definition isFormTypeAuthorized :: "FormType list option \<Rightarrow> FormType \<Rightarrow> bool" where
  "isFormTypeAuthorized fts currentFormType =
     (case fts of
        None \<Rightarrow> True
      | Some l \<Rightarrow> length l = 0 \<or> currentFormType \<in> set l)"

definition validateMessage :: "string \<Rightarrow> string list \<Rightarrow> string" where
  "validateMessage cname formUnknownEvents =
     ''[D365FormEventDispatcher] '' @ cname @ ''.validateHandlers - Method''
       @ (if length formUnknownEvents > 1 then ''s'' else [])
       @ '' '' @ [CHR 0x22] @ joinStrings '', '' formUnknownEvents @ [CHR 0x22]
       @ '' has @FormTypes but no events.''"

definition validateHandlers ::
  "'c Instance \<Rightarrow> FormEventDetails list \<Rightarrow> 'i DispatchState \<Rightarrow> 'i DispatchState" where
  "validateHandlers inst handlers s =
     (let formUnknownEvents = map functionName (filter (\<lambda>h. length (events h) = 0) handlers)
      in if length formUnknownEvents > 0
         then s\<lparr>warningCounts :=
                 logGroupedWarning (validateMessage (ctorName inst) formUnknownEvents)
                   (warningCounts s)\<rparr>
         else s)"

text \<open>The body of the loop of \<open>applySimpleEvents\<close>, for one entry.\<close>

definition simpleBody ::
  "'c Instance \<Rightarrow> FormType \<Rightarrow> FormOp \<Rightarrow> FormEventDetails \<Rightarrow> 'i DispatchState \<Rightarrow> 'i Result" where
  "simpleBody inst formType eventFunction formEvent s =
     (if \<not> isFormTypeAuthorized (formTypes formEvent) formType then Inr s
      else case member inst (functionName formEvent) of
             Falsy \<Rightarrow> Inr s
           | TruthyNonFunction \<Rightarrow> Inl (TypeError, s)
           | Function \<Rightarrow>
               Inr (s\<lparr>calls := calls s @
                        [FormCall eventFunction (BoundMethod (functionName formEvent))]\<rparr>))"

definition applySimpleEvents ::
  "'c Instance \<Rightarrow> FormEventDetails list \<Rightarrow> 'i FormContext \<Rightarrow> FormType \<Rightarrow>
   FormEventTypes \<Rightarrow> FormOp \<Rightarrow> 'i DispatchState \<Rightarrow> 'i Result" where
  "applySimpleEvents inst handlers formContext formType eventType eventFunction s =
     (let formEvents = filter (\<lambda>h. find (\<lambda>e. type e = eventType) (events h) \<noteq> None) handlers
      in forEach (simpleBody inst formType eventFunction) formEvents s)"

definition notFoundMessage ::
  "string \<Rightarrow> string list \<Rightarrow> FormEventTypes \<Rightarrow> string \<Rightarrow> FormType \<Rightarrow> string" where
  "notFoundMessage cname unfoundItemNames eventType fname formType =
     ''[D365FormEventDispatcher] '' @ cname @ '' - Attribute''
       @ (if length unfoundItemNames > 1 then ''s'' else [])
       @ '' '' @ [CHR 0x22] @ joinStrings '', '' unfoundItemNames @ [CHR 0x22]
       @ '' not found or not applicable for event '' @ [CHR 0x22]
       @ eventTypeValue eventType @ [CHR 0x22]
       @ '' on function '' @ [CHR 0x22] @ fname @ [CHR 0x22]
       @ '' and form type '' @ FormTypeLabel formType @ ''.''"

text \<open>
  The body of the inner loop of \<open>applyComponentEvents\<close>, for one event detail
  that passed \<open>isMatchingComponentEvent\<close>. \<open>register\<close> returns the calls it makes
  on the host.
\<close>

definition componentEventBody ::
  "'c Instance \<Rightarrow> 'i FormContext \<Rightarrow> FormType \<Rightarrow> FormEventTypes \<Rightarrow>
   ('i FormContext \<Rightarrow> string list \<Rightarrow> 'i list) \<Rightarrow> ('i \<Rightarrow> bool) \<Rightarrow> ('i \<Rightarrow> string) \<Rightarrow>
   ('i FormContext \<Rightarrow> 'i list \<Rightarrow> Handler \<Rightarrow> 'i HostCall list) \<Rightarrow>
   string \<Rightarrow> EventDetail \<Rightarrow> 'i DispatchState \<Rightarrow> 'i DispatchState" where
  "componentEventBody inst formContext formType eventType getItems itemTypeChecker
     getItemName register fname event s =
     (case componentNames event of
        None \<Rightarrow> s
      | Some formItemNames \<Rightarrow>
          (let items = filter itemTypeChecker (getItems formContext formItemNames);
               s1 = s\<lparr>calls := calls s @ register formContext items (BoundMethod fname)\<rparr>;
               foundItemNames = map getItemName items;
               unfoundItemNames = filter (\<lambda>itemName. itemName \<notin> set foundItemNames) formItemNames
           in if length unfoundItemNames > 0
              then s1\<lparr>warningCounts :=
                        logGroupedWarning
                          (notFoundMessage (ctorName inst) unfoundItemNames eventType fname formType)
                          (warningCounts s1)\<rparr>
              else s1))"

text \<open>The body of the outer loop of \<open>applyComponentEvents\<close>, for one entry.\<close>

definition componentBody ::
  "'c Instance \<Rightarrow> 'i FormContext \<Rightarrow> FormType \<Rightarrow> FormEventTypes \<Rightarrow>
   ('i FormContext \<Rightarrow> string list \<Rightarrow> 'i list) \<Rightarrow> ('i \<Rightarrow> bool) \<Rightarrow> ('i \<Rightarrow> string) \<Rightarrow>
   ('i FormContext \<Rightarrow> 'i list \<Rightarrow> Handler \<Rightarrow> 'i HostCall list) \<Rightarrow>
   FormEventDetails \<Rightarrow> 'i DispatchState \<Rightarrow> 'i Result" where
  "componentBody inst formContext formType eventType getItems itemTypeChecker
     getItemName register formEvent s =
     (if \<not> isFormTypeAuthorized (formTypes formEvent) formType then Inr s
      else case member inst (functionName formEvent) of
             Falsy \<Rightarrow> Inr s
           | TruthyNonFunction \<Rightarrow> Inl (TypeError, s)
           | Function \<Rightarrow>
               Inr (fold
                      (componentEventBody inst formContext formType eventType getItems
                         itemTypeChecker getItemName register (functionName formEvent))
                      (filter (\<lambda>eventDetail. isMatchingComponentEvent eventDetail eventType)
                         (events formEvent))
                      s))"

definition applyComponentEvents ::
  "'c Instance \<Rightarrow> FormEventDetails list \<Rightarrow> 'i FormContext \<Rightarrow> FormType \<Rightarrow> FormEventTypes \<Rightarrow>
   ('i FormContext \<Rightarrow> string list \<Rightarrow> 'i list) \<Rightarrow> ('i \<Rightarrow> bool) \<Rightarrow> ('i \<Rightarrow> string) \<Rightarrow>
   ('i FormContext \<Rightarrow> 'i list \<Rightarrow> Handler \<Rightarrow> 'i HostCall list) \<Rightarrow>
   'i DispatchState \<Rightarrow> 'i Result" where
  "applyComponentEvents inst handlers formContext formType eventType getItems itemTypeChecker
     getItemName register s =
     (let formEvents =
            filter (\<lambda>h. find (\<lambda>eventDetail. type eventDetail = eventType) (events h) \<noteq> None)
              handlers
      in forEach
           (componentBody inst formContext formType eventType getItems itemTypeChecker
              getItemName register)
           formEvents s)"

text \<open>The named passes, in the order of the source file.\<close>

definition applyOnDataLoadEvents ::
  "'c Instance \<Rightarrow> FormEventDetails list \<Rightarrow> 'i FormContext \<Rightarrow> FormType \<Rightarrow>
   'i DispatchState \<Rightarrow> 'i Result" where
  "applyOnDataLoadEvents inst handlers formContext formType =
     applySimpleEvents inst handlers formContext formType OnDataLoad addOnDataLoad"

definition applyOnLoadEvents ::
  "'c Instance \<Rightarrow> FormEventDetails list \<Rightarrow> 'i FormContext \<Rightarrow> FormType \<Rightarrow>
   'i DispatchState \<Rightarrow> 'i Result" where
  "applyOnLoadEvents inst handlers formContext formType =
     applySimpleEvents inst handlers formContext formType OnLoad addOnLoad"

definition applyLoadedEvents ::
  "'c Instance \<Rightarrow> FormEventDetails list \<Rightarrow> 'i FormContext \<Rightarrow> FormType \<Rightarrow>
   'i DispatchState \<Rightarrow> 'i Result" where
  "applyLoadedEvents inst handlers formContext formType =
     applySimpleEvents inst handlers formContext formType Loaded addLoaded"

definition applyOnSaveEvents ::
  "'c Instance \<Rightarrow> FormEventDetails list \<Rightarrow> 'i FormContext \<Rightarrow> FormType \<Rightarrow>
   'i DispatchState \<Rightarrow> 'i Result" where
  "applyOnSaveEvents inst handlers formContext formType =
     applySimpleEvents inst handlers formContext formType OnSave addOnSave"

definition applyOnPostSaveEvents ::
  "'c Instance \<Rightarrow> FormEventDetails list \<Rightarrow> 'i FormContext \<Rightarrow> FormType \<Rightarrow>
   'i DispatchState \<Rightarrow> 'i Result" where
  "applyOnPostSaveEvents inst handlers formContext formType =
     applySimpleEvents inst handlers formContext formType OnPostSave addOnPostSave"

definition applyOnTabStateChangeEvents ::
  "'c Instance \<Rightarrow> FormEventDetails list \<Rightarrow> 'i FormContext \<Rightarrow> FormType \<Rightarrow>
   'i DispatchState \<Rightarrow> 'i Result" where
  "applyOnTabStateChangeEvents inst handlers formContext formType =
     applyComponentEvents inst handlers formContext formType OnTabStateChange
       (\<lambda>formContext tabNames. getTab formContext tabNames)
       (isTabControl formContext)
       (\<lambda>item. getName formContext item)
       (\<lambda>formContext items handler. [BatchCall addTabStateChange items handler])"

text \<open>
  The body of the listener, run on the execution context of a tab-state event: it
  reads the event source and its display state from that context, and its value is
  the list of calls of the user handler it makes.
\<close>

fun fireListener :: "Listener \<Rightarrow> 'i EventContext \<Rightarrow> 'i Invocation list" where
  "fireListener (TabStateListener authorizedTabDisplayState handler) executionContext =
     (case getEventSource executionContext of
        None \<Rightarrow> []
      | Some tabControl \<Rightarrow>
          (let tabDisplayState = getDisplayState executionContext tabControl
           in if tabDisplayState = authorizedTabDisplayState
              then [Invoke handler executionContext]
              else []))"

definition applyOnTabSpecificStateEvents ::
  "'c Instance \<Rightarrow> FormEventDetails list \<Rightarrow> 'i FormContext \<Rightarrow> FormType \<Rightarrow>
   FormEventTypes \<Rightarrow> DisplayState \<Rightarrow> 'i DispatchState \<Rightarrow> 'i Result" where
  "applyOnTabSpecificStateEvents inst handlers formContext formType eventType
     authorizedTabDisplayState =
     applyComponentEvents inst handlers formContext formType eventType
       (\<lambda>formContext tabNames. getTab formContext tabNames)
       (isTabControl formContext)
       (\<lambda>item. getName formContext item)
       (\<lambda>_ items handler.
          map (\<lambda>tabControl.
                 TabCall tabControl (TabStateListener authorizedTabDisplayState handler))
            items)"

definition applyOnTabExpandEvents ::
  "'c Instance \<Rightarrow> FormEventDetails list \<Rightarrow> 'i FormContext \<Rightarrow> FormType \<Rightarrow>
   'i DispatchState \<Rightarrow> 'i Result" where
  "applyOnTabExpandEvents inst handlers formContext formType =
     applyOnTabSpecificStateEvents inst handlers formContext formType OnTabExpand expanded"

definition applyOnTabCollapseEvents ::
  "'c Instance \<Rightarrow> FormEventDetails list \<Rightarrow> 'i FormContext \<Rightarrow> FormType \<Rightarrow>
   'i DispatchState \<Rightarrow> 'i Result" where
  "applyOnTabCollapseEvents inst handlers formContext formType =
     applyOnTabSpecificStateEvents inst handlers formContext formType OnTabCollapse collapsed"

definition applyOnChangeEvents ::
  "'c Instance \<Rightarrow> FormEventDetails list \<Rightarrow> 'i FormContext \<Rightarrow> FormType \<Rightarrow>
   'i DispatchState \<Rightarrow> 'i Result" where
  "applyOnChangeEvents inst handlers formContext formType =
     applyComponentEvents inst handlers formContext formType OnChange
       (\<lambda>formContext attributeNames. getAttribute formContext attributeNames)
       (isAttribute formContext)
       (\<lambda>item. getName formContext item)
       (\<lambda>formContext items handler. [BatchCall addOnChange items handler])"

definition applyOnLookupTagClickEvents ::
  "'c Instance \<Rightarrow> FormEventDetails list \<Rightarrow> 'i FormContext \<Rightarrow> FormType \<Rightarrow>
   'i DispatchState \<Rightarrow> 'i Result" where
  "applyOnLookupTagClickEvents inst handlers formContext formType =
     applyComponentEvents inst handlers formContext formType OnLookupTagClick
       (\<lambda>formContext lookupNames. getControl formContext lookupNames)
       (isLookupControl formContext)
       (\<lambda>item. getName formContext item)
       (\<lambda>formContext items handler. [BatchCall addOnLookupTagClick items handler])"

definition applyPreSearchEvents ::
  "'c Instance \<Rightarrow> FormEventDetails list \<Rightarrow> 'i FormContext \<Rightarrow> FormType \<Rightarrow>
   'i DispatchState \<Rightarrow> 'i Result" where
  "applyPreSearchEvents inst handlers formContext formType =
     applyComponentEvents inst handlers formContext formType PreSearch
       (\<lambda>formContext lookupNames. getControl formContext lookupNames)
       (isLookupControl formContext)
       (\<lambda>item. getName formContext item)
       (\<lambda>formContext items handler. [BatchCall addPreSearch items handler])"

definition applySubGridOnLoadEvents ::
  "'c Instance \<Rightarrow> FormEventDetails list \<Rightarrow> 'i FormContext \<Rightarrow> FormType \<Rightarrow>
   'i DispatchState \<Rightarrow> 'i Result" where
  "applySubGridOnLoadEvents inst handlers formContext formType =
     applyComponentEvents inst handlers formContext formType SubGridOnLoad
       (\<lambda>formContext gridNames. getControl formContext gridNames)
       (isGridControl formContext)
       (\<lambda>gridControl. getName formContext gridControl)
       (\<lambda>formContext gridControls handler. [BatchCall addSubGridOnLoad gridControls handler])"

definition applySubGridOnRecordSelectEvents ::
  "'c Instance \<Rightarrow> FormEventDetails list \<Rightarrow> 'i FormContext \<Rightarrow> FormType \<Rightarrow>
   'i DispatchState \<Rightarrow> 'i Result" where
  "applySubGridOnRecordSelectEvents inst handlers formContext formType =
     applyComponentEvents inst handlers formContext formType SubGridOnRecordSelect
       (\<lambda>formContext gridNames. getControl formContext gridNames)
       (isGridControl formContext)
       (\<lambda>gridControl. getName formContext gridControl)
       (\<lambda>formContext gridControls handler.
          [BatchCall addSubGridOnRecordSelect gridControls handler])"

definition applyOnReadyStateCompleteEvents ::
  "'c Instance \<Rightarrow> FormEventDetails list \<Rightarrow> 'i FormContext \<Rightarrow> FormType \<Rightarrow>
   'i DispatchState \<Rightarrow> 'i Result" where
  "applyOnReadyStateCompleteEvents inst handlers formContext formType =
     applyComponentEvents inst handlers formContext formType OnReadyStateComplete
       (\<lambda>formContext webresourceNames. getControl formContext webresourceNames)
       (isIframeControl formContext)
       (\<lambda>gridControl. getName formContext gridControl)
       (\<lambda>formContext iframeControls handler.
          [BatchCall addOnReadyStateComplete iframeControls handler])"

definition applyOnProcessStatusChangeEvents ::
  "'c Instance \<Rightarrow> FormEventDetails list \<Rightarrow> 'i FormContext \<Rightarrow> FormType \<Rightarrow>
   'i DispatchState \<Rightarrow> 'i Result" where
  "applyOnProcessStatusChangeEvents inst handlers formContext formType =
     applySimpleEvents inst handlers formContext formType
       OnProcessStatusChange addOnProcessStatusChange"

definition applyOnPreProcessStatusChangeEvents ::
  "'c Instance \<Rightarrow> FormEventDetails list \<Rightarrow> 'i FormContext \<Rightarrow> FormType \<Rightarrow>
   'i DispatchState \<Rightarrow> 'i Result" where
  "applyOnPreProcessStatusChangeEvents inst handlers formContext formType =
     applySimpleEvents inst handlers formContext formType
       OnPreProcessStatusChange addOnPreProcessStatusChange"

definition applyOnPreStageChangeEvents ::
  "'c Instance \<Rightarrow> FormEventDetails list \<Rightarrow> 'i FormContext \<Rightarrow> FormType \<Rightarrow>
   'i DispatchState \<Rightarrow> 'i Result" where
  "applyOnPreStageChangeEvents inst handlers formContext formType =
     applySimpleEvents inst handlers formContext formType OnPreStageChange addOnPreStageChange"

definition applyOnStageChangeEvents ::
  "'c Instance \<Rightarrow> FormEventDetails list \<Rightarrow> 'i FormContext \<Rightarrow> FormType \<Rightarrow>
   'i DispatchState \<Rightarrow> 'i Result" where
  "applyOnStageChangeEvents inst handlers formContext formType =
     applySimpleEvents inst handlers formContext formType OnStageChange addOnStageChange"

definition applyOnStageSelectedEvents ::
  "'c Instance \<Rightarrow> FormEventDetails list \<Rightarrow> 'i FormContext \<Rightarrow> FormType \<Rightarrow>
   'i DispatchState \<Rightarrow> 'i Result" where
  "applyOnStageSelectedEvents inst handlers formContext formType =
     applySimpleEvents inst handlers formContext formType OnStageSelected addOnStageSelected"

text \<open>
  \<open>applyOnOutputChangeEvents\<close> passes \<open>FormEventTypes.OnReadyStateComplete\<close> as
  the event type (line 309 of Dispatcher.ts); the model does the same.
\<close>

definition applyOnOutputChangeEvents ::
  "'c Instance \<Rightarrow> FormEventDetails list \<Rightarrow> 'i FormContext \<Rightarrow> FormType \<Rightarrow>
   'i DispatchState \<Rightarrow> 'i Result" where
  "applyOnOutputChangeEvents inst handlers formContext formType =
     applyComponentEvents inst handlers formContext formType OnReadyStateComplete
       (\<lambda>formContext webresourceNames. getControl formContext webresourceNames)
       (isStandardControl formContext)
       (\<lambda>gridControl. getName formContext gridControl)
       (\<lambda>formContext controls handler. [BatchCall addOnOutputChange controls handler])"

definition applyOnResultOpenedEvents ::
  "'c Instance \<Rightarrow> FormEventDetails list \<Rightarrow> 'i FormContext \<Rightarrow> FormType \<Rightarrow>
   'i DispatchState \<Rightarrow> 'i Result" where
  "applyOnResultOpenedEvents inst handlers formContext formType =
     applyComponentEvents inst handlers formContext formType OnResultOpened
       (\<lambda>formContext webresourceNames. getControl formContext webresourceNames)
       (isKbSearchControl formContext)
       (\<lambda>knowlageBaseSearchControl. getName formContext knowlageBaseSearchControl)
       (\<lambda>formContext knowlageBaseSearchControl handler.
          [BatchCall addOnResultOpened knowlageBaseSearchControl handler])"

definition applyOnSelectionEvents ::
  "'c Instance \<Rightarrow> FormEventDetails list \<Rightarrow> 'i FormContext \<Rightarrow> FormType \<Rightarrow>
   'i DispatchState \<Rightarrow> 'i Result" where
  "applyOnSelectionEvents inst handlers formContext formType =
     applyComponentEvents inst handlers formContext formType OnSelection
       (\<lambda>formContext webresourceNames. getControl formContext webresourceNames)
       (isKbSearchControl formContext)
       (\<lambda>knowlageBaseSearchControl. getName formContext knowlageBaseSearchControl)
       (\<lambda>formContext knowlageBaseSearchControl handler.
          [BatchCall addOnSelection knowlageBaseSearchControl handler])"

definition applyPostSearchEvents ::
  "'c Instance \<Rightarrow> FormEventDetails list \<Rightarrow> 'i FormContext \<Rightarrow> FormType \<Rightarrow>
   'i DispatchState \<Rightarrow> 'i Result" where
  "applyPostSearchEvents inst handlers formContext formType =
     applyComponentEvents inst handlers formContext formType PostSearch
       (\<lambda>formContext webresourceNames. getControl formContext webresourceNames)
       (isKbSearchControl formContext)
       (\<lambda>knowledgeBaseSearchControl. getName formContext knowledgeBaseSearchControl)
       (\<lambda>formContext knowledgeBaseSearchControl handler.
          [BatchCall addOnPostSearch knowledgeBaseSearchControl handler])"

text \<open>
  The twenty-three passes of \<open>FormEventDispatcher.apply\<close> in the order of its body
  (lines 37 to 68); a throw in one pass ends the run before the later ones and
  before the flush.
\<close>

definition dispatchPasses ::
  "'c Instance \<Rightarrow> FormEventDetails list \<Rightarrow> 'i FormContext \<Rightarrow> FormType \<Rightarrow>
   ('i DispatchState \<Rightarrow> 'i Result) list" where
  "dispatchPasses inst formEvents formContext formType =
     [applyOnDataLoadEvents inst formEvents formContext formType,
      applyOnLoadEvents inst formEvents formContext formType,
      applyLoadedEvents inst formEvents formContext formType,
      applyOnSaveEvents inst formEvents formContext formType,
      applyOnPostSaveEvents inst formEvents formContext formType,
      applyOnTabStateChangeEvents inst formEvents formContext formType,
      applyOnTabExpandEvents inst formEvents formContext formType,
      applyOnTabCollapseEvents inst formEvents formContext formType,
      applyOnChangeEvents inst formEvents formContext formType,
      applyOnLookupTagClickEvents inst formEvents formContext formType,
      applyPreSearchEvents inst formEvents formContext formType,
      applySubGridOnLoadEvents inst formEvents formContext formType,
      applySubGridOnRecordSelectEvents inst formEvents formContext formType,
      applyOnReadyStateCompleteEvents inst formEvents formContext formType,
      applyOnProcessStatusChangeEvents inst formEvents formContext formType,
      applyOnPreProcessStatusChangeEvents inst formEvents formContext formType,
      applyOnPreStageChangeEvents inst formEvents formContext formType,
      applyOnStageChangeEvents inst formEvents formContext formType,
      applyOnStageSelectedEvents inst formEvents formContext formType,
      applyOnOutputChangeEvents inst formEvents formContext formType,
      applyOnResultOpenedEvents inst formEvents formContext formType,
      applyOnSelectionEvents inst formEvents formContext formType,
      applyPostSearchEvents inst formEvents formContext formType]"

definition runPasses ::
  "'c Instance \<Rightarrow> FormEventDetails list \<Rightarrow> 'i FormContext \<Rightarrow> FormType \<Rightarrow>
   'i DispatchState \<Rightarrow> 'i Result" where
  "runPasses inst formEvents formContext formType s =
     forEach (\<lambda>pass. pass) (dispatchPasses inst formEvents formContext formType) s"

definition flushState :: "'i DispatchState \<Rightarrow> 'i DispatchState" where
  "flushState s =
     (case flushGroupedWarnings (warningCounts s) of
        (lines, cleared) \<Rightarrow> s\<lparr>warningCounts := cleared, warned := warned s @ lines\<rparr>)"

text \<open>\<open>FormEventDispatcher.apply\<close>.\<close>

definition dispatcherApply ::
  "'c eventRegistry \<Rightarrow> 'c Instance \<Rightarrow> 'i FormContext \<Rightarrow> FormType \<Rightarrow>
   'i DispatchState \<Rightarrow> 'i Result" where
  "dispatcherApply eventRegistry inst formContext formType s =
     (let formEvents = getFormEvents eventRegistry (ctor inst);
          s1 = validateHandlers inst formEvents s
      in case runPasses inst formEvents formContext formType s1 of
           Inl err \<Rightarrow> Inl err
         | Inr s2 \<Rightarrow> Inr (flushState s2))"

text \<open>The method a host call was made for.\<close>

fun callHandler :: "'i HostCall \<Rightarrow> Handler" where
  "callHandler (FormCall opn h) = h"
| "callHandler (BatchCall opn items h) = h"
| "callHandler (TabCall tab (TabStateListener st h)) = h"


section \<open>Observations and worked examples\<close>

text \<open>
  The definitions that the properties below are stated with, and the concrete
  registries, forms and instances of their examples.
\<close>

text \<open>
  The view of an entry that the order-independence property compares: per event
  kind whether a detail of the kind is there and, if so, its names as a set (or
  none, for a detail without the property), and the form types as a set.
  \<open>stepNames\<close> and \<open>stepModes\<close> say what one call does to this view.
\<close>

definition stepNames ::
  "EventDetail option \<Rightarrow> (FormEventTypes \<Rightarrow> string set option option) \<Rightarrow>
   FormEventTypes \<Rightarrow> string set option option" where
  "stepNames eventDetail N =
     (case eventDetail of
        None \<Rightarrow> N
      | Some ed \<Rightarrow>
          N(type ed :=
              (case N (type ed) of
                 None \<Rightarrow> Some (map_option set (componentNames ed))
               | Some None \<Rightarrow> Some None
               | Some (Some S) \<Rightarrow>
                   (case componentNames ed of
                      None \<Rightarrow> Some (Some S)
                    | Some ns \<Rightarrow> Some (Some (S \<union> set ns))))))"

definition stepModes :: "FormType list option \<Rightarrow> FormType set option \<Rightarrow> FormType set option" where
  "stepModes fts M =
     (case fts of
        None \<Rightarrow> M
      | Some l \<Rightarrow> Some ((case M of None \<Rightarrow> {} | Some S \<Rightarrow> S) \<union> set l))"

definition absStep ::
  "'c upsertCall \<Rightarrow>
   (FormEventTypes \<Rightarrow> string set option option) \<times> FormType set option \<Rightarrow>
   (FormEventTypes \<Rightarrow> string set option option) \<times> FormType set option" where
  "absStep call a =
     (case call of (c, f, e, ft) \<Rightarrow> (stepNames e (fst a), stepModes ft (snd a)))"

definition absBinding ::
  "FormEventDetails option \<Rightarrow>
   (FormEventTypes \<Rightarrow> string set option option) \<times> FormType set option" where
  "absBinding b = (bindingNames b, bindingModes b)"

text \<open>Four decorator applications on one method, used as a concrete run below.\<close>

definition exCalls :: "nat upsertCall list" where
  "exCalls =
     [(0, ''onNameChange'', Some \<lparr>type = OnChange, componentNames = Some [''firstname'']\<rparr>, None),
      (0, ''onNameChange'', None, Some [Create, Update]),
      (0, ''onNameChange'',
         Some \<lparr>type = OnChange, componentNames = Some [''lastname'', ''firstname'']\<rparr>, None),
      (0, ''onNameChange'', Some \<lparr>type = OnLoad, componentNames = None\<rparr>,
         Some [Update, ReadOnly])]"

text \<open>
  The invariants as executable checks on the entries of one class: no event kind
  twice in an entry, no name twice in a name list; and the latter for the name list
  that a call brings.
\<close>

definition kindsUnique :: "FormEventDetails list \<Rightarrow> bool" where
  "kindsUnique fes = list_all (\<lambda>fe. distinct (map type (events fe))) fes"

definition namesUnique :: "EventDetail \<Rightarrow> bool" where
  "namesUnique e = (case componentNames e of None \<Rightarrow> True | Some ns \<Rightarrow> distinct ns)"

definition allNamesUnique :: "FormEventDetails list \<Rightarrow> bool" where
  "allNamesUnique fes = list_all (\<lambda>fe. list_all namesUnique (events fe)) fes"

definition callNamesUnique :: "'c upsertCall \<Rightarrow> bool" where
  "callNamesUnique call =
     (case call of (c, f, e, ft) \<Rightarrow> (case e of None \<Rightarrow> True | Some ed \<Rightarrow> namesUnique ed))"

text \<open>
  The state a run ends in, whether it returned or threw; the calls a run added to
  those of its start state; and the test that a host call was made for a method
  that has an entry whose form types admit the current one and that is a function
  of the instance.
\<close>

definition resultState :: "'e \<times> 's + 's \<Rightarrow> 's" where
  "resultState r = (case r of Inl (err, s) \<Rightarrow> s | Inr s \<Rightarrow> s)"

definition callFor :: "'c Instance \<Rightarrow> FormEventDetails list \<Rightarrow> FormType \<Rightarrow> 'i HostCall \<Rightarrow> bool" where
  "callFor inst handlers formType call =
     list_ex (\<lambda>h. callHandler call = BoundMethod (functionName h)
                 \<and> isFormTypeAuthorized (formTypes h) formType
                 \<and> member inst (functionName h) = Function) handlers"

definition madeCalls :: "'i DispatchState \<Rightarrow> 'i Result \<Rightarrow> 'i HostCall list" where
  "madeCalls s r = drop (length (calls s)) (calls (resultState r))"

text \<open>
  A concrete host for the worked examples: a form is a list of named components,
  each with the sorts the type predicates of the helper library would recognise.
  An accessor returns, for each requested name in turn, the components of that
  name among those it serves. \<open>exampleInstance\<close> has the listed methods and no
  other member; its class is number 0, named ContactForm.
\<close>

datatype Sort = AttributeSort | TabSort | GridSort | IframeSort | KbSearchSort | LookupSort
  | StandardSort

record Component =
  compName :: string
  sorts :: "Sort list"

definition byNames :: "Component list \<Rightarrow> string list \<Rightarrow> Component list" where
  "byNames comps names = concat (map (\<lambda>n. filter (\<lambda>c. compName c = n) comps) names)"

definition exampleForm :: "Component list \<Rightarrow> Component FormContext" where
  "exampleForm comps =
     \<lparr>getAttribute = byNames (filter (\<lambda>c. AttributeSort \<in> set (sorts c)) comps),
      getTab = byNames (filter (\<lambda>c. TabSort \<in> set (sorts c)) comps),
      getControl = byNames (filter (\<lambda>c. AttributeSort \<notin> set (sorts c) \<and> TabSort \<notin> set (sorts c)) comps),
      isAttribute = (\<lambda>c. AttributeSort \<in> set (sorts c)),
      isTabControl = (\<lambda>c. TabSort \<in> set (sorts c)),
      isGridControl = (\<lambda>c. GridSort \<in> set (sorts c)),
      isIframeControl = (\<lambda>c. IframeSort \<in> set (sorts c)),
      isKbSearchControl = (\<lambda>c. KbSearchSort \<in> set (sorts c)),
      isLookupControl = (\<lambda>c. LookupSort \<in> set (sorts c)),
      isStandardControl = (\<lambda>c. StandardSort \<in> set (sorts c)),
      getName = compName\<rparr>"

definition exampleInstance :: "string list \<Rightarrow> nat Instance" where
  "exampleInstance methods =
     \<lparr>ctor = 0, ctorName = ''ContactForm'',
      member = (\<lambda>n. if n \<in> set methods then Function else Falsy)\<rparr>"

definition emptyState :: "Component DispatchState" where
  "emptyState = \<lparr>calls = [], warningCounts = [], warned = []\<rparr>"






text \<open>
  A class whose method \<open>first\<close> has a filter and no event and whose method
  \<open>onLoad\<close> is bound to the load event, and the state that a run leaves when it
  throws after queuing the warning about \<open>first\<close>.
\<close>

definition exLeftoverRegistry :: "nat eventRegistry" where
  "exLeftoverRegistry =
     upsertAll [(0, ''first'', None, Some [Create]),
                (0, ''onLoad'', Some \<lparr>type = OnLoad, componentNames = None\<rparr>, None)]
       Map.empty"

definition exLeftoverState :: "Component DispatchState" where
  "exLeftoverState =
     emptyState\<lparr>warningCounts := [(validateMessage ''ContactForm'' [''first''], 1)]\<rparr>"

text \<open>A class with a load handler and a change handler.\<close>

definition exLoadRegistry :: "nat eventRegistry" where
  "exLoadRegistry =
     upsertAll [(0, ''onLoad'', Some \<lparr>type = OnLoad, componentNames = None\<rparr>, None),
                (0, ''onNameChange'',
                   Some \<lparr>type = OnChange, componentNames = Some [''firstname'']\<rparr>, None)]
       Map.empty"

text \<open>
  The test that a host call hands a tab the state-gated listener for the given
  display state.
\<close>

fun isTabGate :: "DisplayState \<Rightarrow> 'i HostCall \<Rightarrow> bool" where
  "isTabGate st (TabCall tab (TabStateListener st' h)) = (st' = st)"
| "isTabGate st _ = False"

text \<open>A class with an expand handler and a collapse handler on the tab T1.\<close>

definition exTabRegistry :: "nat eventRegistry" where
  "exTabRegistry =
     upsertAll [(0, ''onTabOpen'', Some \<lparr>type = OnTabExpand, componentNames = Some [''T1'']\<rparr>, None),
                (0, ''onTabClose'', Some \<lparr>type = OnTabCollapse, componentNames = Some [''T1'']\<rparr>, None)]
       Map.empty"

definition exTab :: Component where
  "exTab = \<lparr>compName = ''T1'', sorts = [TabSort]\<rparr>"

text \<open>
  A class with an output-change handler on the control pcf1 and a ready-state
  handler on the frame frame1, and a form that has both components.
\<close>

definition exOutputRegistry :: "nat eventRegistry" where
  "exOutputRegistry =
     upsertAll
       [(0, ''onPcfChange'', Some \<lparr>type = OnOutputChange, componentNames = Some [''pcf1'']\<rparr>, None),
        (0, ''onFrameReady'',
           Some \<lparr>type = OnReadyStateComplete, componentNames = Some [''frame1'']\<rparr>, None)]
       Map.empty"

definition exOutputForm :: "Component FormContext" where
  "exOutputForm =
     exampleForm [\<lparr>compName = ''pcf1'', sorts = [StandardSort]\<rparr>,
                  \<lparr>compName = ''frame1'', sorts = [IframeSort]\<rparr>]"

text \<open>A class with one handler of the given kind on the names a, b and c.\<close>

definition exPartialRegistry :: "FormEventTypes \<Rightarrow> nat eventRegistry" where
  "exPartialRegistry kind =
     upsertAll
       [(0, ''onEvent'', Some \<lparr>type = kind, componentNames = Some [''a'', ''b'', ''c'']\<rparr>, None)]
       Map.empty"

text \<open>
  A class with a method registered with nothing, a method with a filter only and a
  method with an event and a filter.
\<close>

definition exBareRegistry :: "nat eventRegistry" where
  "exBareRegistry =
     upsertAll [(0, ''first'', None, None),
                (0, ''second'', None, Some [Create]),
                (0, ''third'', Some \<lparr>type = OnLoad, componentNames = None\<rparr>, Some [Create])]
       Map.empty"


section \<open>Properties of the warning aggregator\<close>

lemma firstOccurrences_set: "set (firstOccurrences xs) = set xs"
  by (induction xs) auto

lemma firstOccurrences_distinct: "distinct (firstOccurrences xs)"
  by (induction xs) (auto simp: firstOccurrences_set)

lemma firstOccurrences_snoc:
  "firstOccurrences (xs @ [x]) =
     (if x \<in> set xs then firstOccurrences xs else firstOccurrences xs @ [x])"
  by (induction xs) auto

lemma map_of_keyed:
  "map_of (map (\<lambda>x. (x, c x)) ks) m = (if m \<in> set ks then Some (c m) else None)"
  by (induction ks) auto

lemma mapSet_keyed:
  "distinct ks \<Longrightarrow> mapSet m v (map (\<lambda>x. (x, c x)) ks) =
     (if m \<in> set ks then map (\<lambda>x. (x, if x = m then v else c x)) ks
      else map (\<lambda>x. (x, c x)) ks @ [(m, v)])"
  by (induction ks) auto

lemma map_of_mapSet: "map_of (mapSet k v kvs) k' = (if k' = k then Some v else map_of kvs k')"
  by (induction kvs) auto

lemma logGroupedWarning_count:
  "map_of (logGroupedWarning m wc) m' =
     (if m' = m then Some ((case map_of wc m of None \<Rightarrow> 0 | Some n \<Rightarrow> n) + 1)
      else map_of wc m')"
  by (simp add: logGroupedWarning_def Let_def map_of_mapSet)

text \<open>
  After a run of \<open>logGroupedWarning\<close> calls on an empty map, the map lists the
  distinct messages in the order of their first occurrence, each with the number
  of its occurrences.
\<close>

lemma fold_logGroupedWarning:
  "fold logGroupedWarning msgs [] = map (\<lambda>m. (m, count_list msgs m)) (firstOccurrences msgs)"
proof (induction msgs rule: rev_induct)
  case Nil
  show ?case by simp
next
  case (snoc m ms)
  have "fold logGroupedWarning (ms @ [m]) [] =
          logGroupedWarning m (map (\<lambda>m. (m, count_list ms m)) (firstOccurrences ms))"
    by (simp add: snoc.IH)
  also have "\<dots> = map (\<lambda>x. (x, count_list (ms @ [m]) x)) (firstOccurrences (ms @ [m]))"
    by (auto simp: logGroupedWarning_def Let_def map_of_keyed mapSet_keyed
        firstOccurrences_snoc firstOccurrences_set firstOccurrences_distinct)
  finally show ?case .
qed

text \<open>
  Claim C7. Each \<open>logGroupedWarning\<close> call adds one to the counter of exactly its
  message (a message not yet counted starts at one) and leaves the other counters
  alone. After any run of calls \<open>msgs\<close> on an empty map, \<open>flushGroupedWarnings\<close>
  emits one line per distinct message, in the order of first occurrence; the line
  is the message after a space, and it starts with the marker \<open>(nx)\<close>, \<open>n\<close> the
  number of occurrences, exactly when that number is greater than one. The flush
  leaves the map empty, and a flush of the emptied map emits nothing.
\<close>

theorem warning_aggregator_counts_and_flush:
  "map_of (logGroupedWarning m wc) m' =
     (if m' = m then Some ((case map_of wc m of None \<Rightarrow> 0 | Some n \<Rightarrow> n) + 1)
      else map_of wc m')
   \<and> fst (flushGroupedWarnings (fold logGroupedWarning msgs [])) =
       map (\<lambda>msg. (if count_list msgs msg > 1
                     then ''('' @ showNat (count_list msgs msg) @ ''x)'' else []) @ '' '' @ msg)
         (firstOccurrences msgs)
   \<and> distinct (firstOccurrences msgs) \<and> set (firstOccurrences msgs) = set msgs
   \<and> snd (flushGroupedWarnings wc) = []
   \<and> fst (flushGroupedWarnings (snd (flushGroupedWarnings wc))) = []"
  by (simp add: logGroupedWarning_count fold_logGroupedWarning flushGroupedWarnings_def
      warningLine_def firstOccurrences_distinct firstOccurrences_set)

text \<open>
  The example of the specification: two equal messages and one other flush as two
  lines, the first with the marker for two occurrences, the second without one.
\<close>

lemma warning_aggregator_example:
  "fst (flushGroupedWarnings (fold logGroupedWarning [''a'', ''b'', ''a''] []))
     = [''(2x) a'', '' b'']"
  by (simp add: logGroupedWarning_def flushGroupedWarnings_def warningLine_def
      showNat.simps digitChar_def)


section \<open>Properties of the registry\<close>

subsection \<open>What one call does to the entry of its method\<close>

lemma find_updateFound:
  "(\<And>x. P x \<Longrightarrow> P (g x)) \<Longrightarrow> find P (updateFound P g xs) = map_option g (find P xs)"
  by (induction xs) auto

lemma find_name_updateFound_other:
  "f' \<noteq> f \<Longrightarrow> (\<And>x. functionName (g x) = functionName x) \<Longrightarrow>
   find (\<lambda>e. functionName e = f') (updateFound (\<lambda>e. functionName e = f) g xs)
     = find (\<lambda>e. functionName e = f') xs"
  by (induction xs) auto

lemma find_type_updateFound_other:
  "k' \<noteq> k \<Longrightarrow> (\<And>x. type (g x) = type x) \<Longrightarrow>
   find (\<lambda>e. type e = k') (updateFound (\<lambda>e. type e = k) g xs)
     = find (\<lambda>e. type e = k') xs"
  by (induction xs) auto

lemma find_append:
  "find P (xs @ ys) = (case find P xs of None \<Rightarrow> find P ys | Some x \<Rightarrow> Some x)"
  by (induction xs) auto

lemma set_mergeUnique: "set (mergeUnique xs ys) = set xs \<union> set ys"
  by (auto simp: mergeUnique_def)

lemma functionName_upsertExisting: "functionName (upsertExisting e ft x) = functionName x"
  by (simp add: upsertExisting_def Let_def split: option.splits)

lemma methodBinding_upsert:
  "methodBinding (upsertFunctionEvent c f e ft reg) c f =
     (case methodBinding reg c f of
        None \<Rightarrow> Some \<lparr>functionName = f, formTypes = ft,
                       events = (case e of None \<Rightarrow> [] | Some ed \<Rightarrow> [ed])\<rparr>
      | Some b \<Rightarrow> Some (upsertExisting e ft b))"
  by (auto simp: methodBinding_def upsertFunctionEvent_def Let_def getFormEvents_def find_append
      find_updateFound functionName_upsertExisting split: option.splits)

lemma methodBinding_upsert_other:
  "c' \<noteq> c \<or> f' \<noteq> f \<Longrightarrow>
   methodBinding (upsertFunctionEvent c f e ft reg) c' f' = methodBinding reg c' f'"
  by (auto simp: methodBinding_def upsertFunctionEvent_def Let_def getFormEvents_def find_append
      find_name_updateFound_other functionName_upsertExisting split: option.splits)

lemma names_upsertEvent:
  "map_option (\<lambda>e. map_option set (componentNames e)) (find (\<lambda>e. type e = k) (upsertEvent ed evs))
   = stepNames (Some ed)
       (\<lambda>k. map_option (\<lambda>e. map_option set (componentNames e)) (find (\<lambda>e. type e = k) evs)) k"
proof (cases "k = type ed")
  case True
  then show ?thesis
    by (auto simp: upsertEvent_def stepNames_def find_append find_updateFound set_mergeUnique
        split: option.splits)
next
  case False
  then show ?thesis
    by (auto simp: upsertEvent_def stepNames_def find_append find_type_updateFound_other
        split: option.splits)
qed

lemma bindingNames_upsert:
  "bindingNames (methodBinding (upsertFunctionEvent c f e ft reg) c f)
     = stepNames e (bindingNames (methodBinding reg c f))"
proof
  fix k
  show "bindingNames (methodBinding (upsertFunctionEvent c f e ft reg) c f) k
     = stepNames e (bindingNames (methodBinding reg c f)) k"
  proof (cases "methodBinding reg c f")
    case None
    then show ?thesis
      by (auto simp: methodBinding_upsert bindingNames_def stepNames_def split: option.splits)
  next
    case (Some b)
    show ?thesis
    proof (cases e)
      case None
      then show ?thesis using Some
        by (simp add: methodBinding_upsert bindingNames_def stepNames_def upsertExisting_def
            split: option.splits)
    next
      case (Some ed)
      have "bindingNames (Some (upsertExisting (Some ed) ft b)) k =
            map_option (\<lambda>e. map_option set (componentNames e))
              (find (\<lambda>e. type e = k) (upsertEvent ed (events b)))"
        by (simp add: bindingNames_def upsertExisting_def Let_def split: option.splits)
      also have "\<dots> = stepNames (Some ed) (bindingNames (Some b)) k"
      proof -
        have "bindingNames (Some b) =
              (\<lambda>k. map_option (\<lambda>e. map_option set (componentNames e))
                     (find (\<lambda>e. type e = k) (events b)))"
          by (rule ext) (simp add: bindingNames_def)
        then show ?thesis by (simp add: names_upsertEvent)
      qed
      finally show ?thesis using Some \<open>methodBinding reg c f = Some b\<close>
        by (simp add: methodBinding_upsert)
    qed
  qed
qed

lemma bindingModes_upsert:
  "bindingModes (methodBinding (upsertFunctionEvent c f e ft reg) c f)
     = stepModes ft (bindingModes (methodBinding reg c f))"
  by (auto simp: methodBinding_upsert bindingModes_def stepModes_def upsertExisting_def Let_def
      set_mergeUnique split: option.splits)

lemma find_type_Some_iff: "(find (\<lambda>e. type e = k) evs \<noteq> None) = (k \<in> type ` set evs)"
  by (induction evs) auto

lemma bindingKinds_names: "bindingKinds b = {k. bindingNames b k \<noteq> None}"
proof (cases b)
  case None
  then show ?thesis by (simp add: bindingKinds_def bindingNames_def)
next
  case (Some fe)
  then show ?thesis
    using find_type_Some_iff [of _ "events fe"]
    by (auto simp: bindingKinds_def bindingNames_def)
qed

lemma absBinding_fold:
  assumes "\<forall>call \<in> set cs. fst call = c \<and> fst (snd call) = f"
  shows "absBinding (methodBinding (fold upsertCall cs reg) c f)
           = fold absStep cs (absBinding (methodBinding reg c f))"
  using assms
proof (induction cs arbitrary: reg)
  case Nil
  show ?case by simp
next
  case (Cons call cs)
  obtain e ft where call: "call = (c, f, e, ft)"
    using Cons.prems by (cases call) auto
  have "absBinding (methodBinding (upsertCall call reg) c f)
          = absStep call (absBinding (methodBinding reg c f))"
    by (simp add: call absBinding_def absStep_def bindingNames_upsert bindingModes_upsert)
  with Cons show ?case by simp
qed

lemma stepModes_commute: "stepModes a (stepModes b M) = stepModes b (stepModes a M)"
  by (auto simp: stepModes_def split: option.splits)

lemma stepNames_commute:
  assumes "\<And>x. a = Some x \<Longrightarrow> wellTyped x" "\<And>x. b = Some x \<Longrightarrow> wellTyped x"
  shows "stepNames a (stepNames b N) = stepNames b (stepNames a N)"
proof (cases a)
  case None
  then show ?thesis by (simp add: stepNames_def)
next
  case (Some x)
  note a = this
  show ?thesis
  proof (cases b)
    case None
    then show ?thesis by (simp add: stepNames_def)
  next
    case (Some y)
    have wx: "wellTyped x" and wy: "wellTyped y" using assms a Some by auto
    show ?thesis
    proof (cases "type x = type y")
      case True
      with wx wy have "(componentNames x = None) = (componentNames y = None)"
        by (auto simp: wellTyped_def isComponentEventDetail_def)
      with True show ?thesis unfolding a Some
        by (auto simp: stepNames_def fun_eq_iff split: option.splits)
    next
      case False
      then show ?thesis unfolding a Some
        by (auto simp: stepNames_def fun_eq_iff split: option.splits)
    qed
  qed
qed

lemma absStep_commute:
  assumes "\<And>x. fst (snd (snd a)) = Some x \<Longrightarrow> wellTyped x"
          "\<And>x. fst (snd (snd b)) = Some x \<Longrightarrow> wellTyped x"
  shows "absStep a \<circ> absStep b = absStep b \<circ> absStep a"
proof
  fix s :: "(FormEventTypes \<Rightarrow> string set option option) \<times> FormType set option"
  obtain c1 f1 e1 t1 where a: "a = (c1, f1, e1, t1)" by (cases a) auto
  obtain c2 f2 e2 t2 where b: "b = (c2, f2, e2, t2)" by (cases b) auto
  have "stepNames e1 (stepNames e2 (fst s)) = stepNames e2 (stepNames e1 (fst s))"
    using assms by (intro stepNames_commute) (auto simp: a b)
  then show "(absStep a \<circ> absStep b) s = (absStep b \<circ> absStep a) s"
    by (simp add: a b absStep_def stepModes_commute)
qed

subsection \<open>Order of the calls\<close>

text \<open>
  Claim C2. Take any run of \<open>upsertFunctionEvent\<close> calls on one class and method,
  with event details of the shapes the type \<open>EventDetail\<close> has (names exactly on
  the component kinds), and any permutation of the run. From any registry, the two
  runs leave entries for the method with the same set of event kinds, for every
  kind the same component names as a set, and the same form types as a set (or
  both none).
\<close>

theorem upsert_order_independent:
  assumes "mset cs' = mset cs"
    and "\<forall>call \<in> set cs. fst call = c \<and> fst (snd call) = f"
    and "\<forall>call \<in> set cs. \<forall>ed. fst (snd (snd call)) = Some ed \<longrightarrow> wellTyped ed"
  shows "bindingKinds (methodBinding (upsertAll cs' reg) c f)
           = bindingKinds (methodBinding (upsertAll cs reg) c f)
       \<and> (\<forall>k. bindingNames (methodBinding (upsertAll cs' reg) c f) k
              = bindingNames (methodBinding (upsertAll cs reg) c f) k)
       \<and> bindingModes (methodBinding (upsertAll cs' reg) c f)
           = bindingModes (methodBinding (upsertAll cs reg) c f)"
proof -
  have set_eq: "set cs' = set cs" using assms(1) by (rule mset_eq_setD)
  have "fold absStep cs = fold absStep cs'"
    using assms(3) assms(1) [symmetric]
    by (intro fold_multiset_equiv absStep_commute) auto
  then have "absBinding (methodBinding (upsertAll cs' reg) c f)
           = absBinding (methodBinding (upsertAll cs reg) c f)"
    using assms(2) set_eq by (simp add: upsertAll_def absBinding_fold)
  then show ?thesis
    by (simp add: absBinding_def bindingKinds_names)
qed

text \<open>
  The run \<open>exCalls\<close> and its reverse: the two entries list their events, names and
  form types in different orders and agree as sets.
\<close>

theorem upsert_order_independent_witness:
  "mset (rev exCalls) = mset exCalls
   \<and> bindingKinds (methodBinding (upsertAll (rev exCalls) Map.empty) 0 ''onNameChange'')
       = bindingKinds (methodBinding (upsertAll exCalls Map.empty) 0 ''onNameChange'')
   \<and> bindingNames (methodBinding (upsertAll (rev exCalls) Map.empty) 0 ''onNameChange'') OnChange
       = bindingNames (methodBinding (upsertAll exCalls Map.empty) 0 ''onNameChange'') OnChange
   \<and> bindingModes (methodBinding (upsertAll (rev exCalls) Map.empty) 0 ''onNameChange'')
       = bindingModes (methodBinding (upsertAll exCalls Map.empty) 0 ''onNameChange'')
   \<and> bindingModes (methodBinding (upsertAll exCalls Map.empty) 0 ''onNameChange'')
       = Some {Create, Update, ReadOnly}
   \<and> events (the (methodBinding (upsertAll exCalls Map.empty) 0 ''onNameChange''))
       = [\<lparr>type = OnChange, componentNames = Some [''firstname'', ''lastname'']\<rparr>,
          \<lparr>type = OnLoad, componentNames = None\<rparr>]
   \<and> events (the (methodBinding (upsertAll (rev exCalls) Map.empty) 0 ''onNameChange''))
       = [\<lparr>type = OnLoad, componentNames = None\<rparr>,
          \<lparr>type = OnChange, componentNames = Some [''lastname'', ''firstname'']\<rparr>]"
proof -
  have p: "mset (rev exCalls) = mset exCalls" by simp
  have t: "\<forall>call \<in> set exCalls. fst call = 0 \<and> fst (snd call) = ''onNameChange''"
    by (simp add: exCalls_def)
  have w: "\<forall>call \<in> set exCalls. \<forall>ed. fst (snd (snd call)) = Some ed \<longrightarrow> wellTyped ed"
    by (simp add: exCalls_def wellTyped_def isComponentEventDetail_def)
  have ev: "methodBinding (upsertAll exCalls Map.empty) 0 ''onNameChange'' =
     Some \<lparr>functionName = ''onNameChange'', formTypes = Some [Create, Update, ReadOnly],
           events = [\<lparr>type = OnChange, componentNames = Some [''firstname'', ''lastname'']\<rparr>,
                     \<lparr>type = OnLoad, componentNames = None\<rparr>]\<rparr>"
    by (simp add: exCalls_def upsertAll_def upsertFunctionEvent_def getFormEvents_def
        methodBinding_def upsertExisting_def upsertEvent_def mergeUnique_def Let_def)
  have ev': "methodBinding (upsertAll (rev exCalls) Map.empty) 0 ''onNameChange'' =
     Some \<lparr>functionName = ''onNameChange'', formTypes = Some [Update, ReadOnly, Create],
           events = [\<lparr>type = OnLoad, componentNames = None\<rparr>,
                     \<lparr>type = OnChange, componentNames = Some [''lastname'', ''firstname'']\<rparr>]\<rparr>"
    by (simp add: exCalls_def upsertAll_def upsertFunctionEvent_def getFormEvents_def
        methodBinding_def upsertExisting_def upsertEvent_def mergeUnique_def Let_def)
  show ?thesis
    using upsert_order_independent [OF p t w, of Map.empty] p
    by (simp add: ev ev' bindingModes_def insert_commute)
qed

subsection \<open>Uniqueness invariants and repeated calls\<close>

lemma map_functionName_updateFound:
  "(\<And>x. functionName (g x) = functionName x) \<Longrightarrow>
   map functionName (updateFound P g xs) = map functionName xs"
  by (induction xs) auto

lemma map_type_updateFound:
  "(\<And>x. type (g x) = type x) \<Longrightarrow> map type (updateFound P g xs) = map type xs"
  by (induction xs) auto

lemma list_all_updateFound:
  "list_all Q xs \<Longrightarrow> (\<And>x. x \<in> set xs \<Longrightarrow> P x \<Longrightarrow> Q x \<Longrightarrow> Q (g x)) \<Longrightarrow>
   list_all Q (updateFound P g xs)"
  by (induction xs) auto

lemma map_type_upsertEvent:
  "map type (upsertEvent ed evs) =
     (if type ed \<in> type ` set evs then map type evs else map type evs @ [type ed])"
proof (cases "find (\<lambda>e. type e = type ed) evs")
  case None
  then have "type ed \<notin> type ` set evs" by (auto simp: find_None_iff)
  with None show ?thesis by (simp add: upsertEvent_def)
next
  case (Some ex)
  then have "type ed \<in> type ` set evs"
    using find_type_Some_iff [of "type ed" evs] by simp
  with Some show ?thesis
    by (auto simp: upsertEvent_def map_type_updateFound split: option.splits)
qed

lemma distinct_upsertEvent:
  "distinct (map type evs) \<Longrightarrow> distinct (map type (upsertEvent ed evs))"
  by (simp add: map_type_upsertEvent)

lemma distinct_mergeUnique:
  "distinct xs \<Longrightarrow> distinct ys \<Longrightarrow> distinct (mergeUnique xs ys)"
  by (auto simp: mergeUnique_def)

lemma find_Some_mem: "find P xs = Some x \<Longrightarrow> x \<in> set xs"
  by (induction xs) (auto split: if_splits)

lemma namesUnique_upsertEvent:
  assumes "list_all namesUnique evs" "namesUnique ed"
  shows "list_all namesUnique (upsertEvent ed evs)"
proof (cases "find (\<lambda>e. type e = type ed) evs")
  case None
  with assms show ?thesis by (simp add: upsertEvent_def)
next
  case (Some ex)
  have exu: "namesUnique ex"
    using find_Some_mem [OF Some] assms(1) by (simp add: list_all_iff)
  show ?thesis
  proof (cases "componentNames ex")
    case None
    with Some assms show ?thesis by (simp add: upsertEvent_def)
  next
    case exn: (Some existingNames)
    show ?thesis
    proof (cases "componentNames ed")
      case None
      with Some exn assms show ?thesis by (simp add: upsertEvent_def)
    next
      case edn: (Some incomingNames)
      have "distinct (mergeUnique existingNames incomingNames)"
        using exu assms(2) exn edn by (simp add: namesUnique_def distinct_mergeUnique)
      then show ?thesis using Some exn edn assms(1)
        by (auto simp: upsertEvent_def namesUnique_def intro!: list_all_updateFound)
    qed
  qed
qed

lemma events_upsertExisting:
  "events (upsertExisting e ft fe) =
     (case e of None \<Rightarrow> events fe | Some ed \<Rightarrow> upsertEvent ed (events fe))"
  by (simp add: upsertExisting_def Let_def split: option.splits)

lemma getFormEvents_upsert:
  "getFormEvents (upsertFunctionEvent c f e ft reg) c' =
     (if c' = c then
        (case find (\<lambda>event. functionName event = f) (getFormEvents reg c) of
           None \<Rightarrow> getFormEvents reg c @
                    [\<lparr>functionName = f, formTypes = ft,
                      events = (case e of None \<Rightarrow> [] | Some ed \<Rightarrow> [ed])\<rparr>]
         | Some fe \<Rightarrow> updateFound (\<lambda>event. functionName event = f) (upsertExisting e ft)
                        (getFormEvents reg c))
      else getFormEvents reg c')"
  by (simp add: upsertFunctionEvent_def getFormEvents_def Let_def split: option.splits)

lemma methodsUnique_upsert:
  assumes "distinct (map functionName (getFormEvents reg c'))"
  shows "distinct (map functionName (getFormEvents (upsertFunctionEvent c f e ft reg) c'))"
proof (cases "find (\<lambda>event. functionName event = f) (getFormEvents reg c)")
  case None
  then have "f \<notin> functionName ` set (getFormEvents reg c)" by (auto simp: find_None_iff)
  with None assms show ?thesis by (auto simp: getFormEvents_upsert)
next
  case (Some fe)
  with assms show ?thesis
    by (auto simp: getFormEvents_upsert map_functionName_updateFound functionName_upsertExisting)
qed

lemma kindsUnique_upsert:
  assumes "kindsUnique (getFormEvents reg c')"
  shows "kindsUnique (getFormEvents (upsertFunctionEvent c f e ft reg) c')"
proof (cases "find (\<lambda>event. functionName event = f) (getFormEvents reg c)")
  case None
  with assms show ?thesis
    by (auto simp: getFormEvents_upsert kindsUnique_def split: option.splits)
next
  case (Some fe)
  have "\<And>x. distinct (map type (events x)) \<Longrightarrow>
      distinct (map type (events (upsertExisting e ft x)))"
    by (simp add: events_upsertExisting distinct_upsertEvent split: option.splits)
  with Some assms show ?thesis
    by (auto simp: getFormEvents_upsert kindsUnique_def intro!: list_all_updateFound)
qed

lemma allNamesUnique_upsert:
  assumes "allNamesUnique (getFormEvents reg c')" "callNamesUnique (c, f, e, ft)"
  shows "allNamesUnique (getFormEvents (upsertFunctionEvent c f e ft reg) c')"
proof (cases "find (\<lambda>event. functionName event = f) (getFormEvents reg c)")
  case None
  with assms show ?thesis
    by (auto simp: getFormEvents_upsert allNamesUnique_def callNamesUnique_def split: option.splits)
next
  case (Some fe)
  have "\<And>x. list_all namesUnique (events x) \<Longrightarrow>
      list_all namesUnique (events (upsertExisting e ft x))"
    using assms(2)
    by (auto simp: events_upsertExisting callNamesUnique_def namesUnique_upsertEvent
        split: option.splits)
  with Some assms(1) show ?thesis
    by (auto simp: getFormEvents_upsert allNamesUnique_def intro!: list_all_updateFound)
qed

lemma upsertAll_invariants:
  assumes "distinct (map functionName (getFormEvents reg c))" "kindsUnique (getFormEvents reg c)"
  shows "distinct (map functionName (getFormEvents (upsertAll cs reg) c))
       \<and> kindsUnique (getFormEvents (upsertAll cs reg) c)"
  using assms
proof (induction cs arbitrary: reg)
  case Nil
  then show ?case by (simp add: upsertAll_def)
next
  case (Cons call cs)
  obtain c0 f e ft where call: "call = (c0, f, e, ft)" by (cases call) auto
  have "distinct (map functionName (getFormEvents (upsertCall call reg) c))"
       "kindsUnique (getFormEvents (upsertCall call reg) c)"
    using Cons.prems by (simp_all add: call methodsUnique_upsert kindsUnique_upsert)
  from Cons.IH [OF this] show ?case by (simp add: upsertAll_def)
qed

lemma upsertAll_allNamesUnique:
  assumes "allNamesUnique (getFormEvents reg c)" "list_all callNamesUnique cs"
  shows "allNamesUnique (getFormEvents (upsertAll cs reg) c)"
  using assms
proof (induction cs arbitrary: reg)
  case Nil
  then show ?case by (simp add: upsertAll_def)
next
  case (Cons call cs)
  obtain c0 f e ft where call: "call = (c0, f, e, ft)" by (cases call) auto
  have "allNamesUnique (getFormEvents (upsertCall call reg) c)"
    using Cons.prems by (simp add: call allNamesUnique_upsert)
  from Cons.IH [OF this] Cons.prems(2) show ?case by (simp add: upsertAll_def)
qed

lemma mergeUnique_absorb: "set ys \<subseteq> set xs \<Longrightarrow> mergeUnique xs ys = xs"
  by (auto simp: mergeUnique_def filter_empty_conv)

lemma updateFound_twice:
  "(\<And>x. P x \<Longrightarrow> P (g x)) \<Longrightarrow>
   updateFound P g (updateFound P g xs) = updateFound P (\<lambda>x. g (g x)) xs"
  by (induction xs) auto

lemma updateFound_cong_found:
  "find P xs = Some x \<Longrightarrow> g x = h x \<Longrightarrow> updateFound P g xs = updateFound P h xs"
  by (induction xs) (auto split: if_splits)

lemma updateFound_id: "find P xs = Some x \<Longrightarrow> g x = x \<Longrightarrow> updateFound P g xs = xs"
  by (induction xs) (auto split: if_splits)

lemma updateFound_append_new:
  "find P xs = None \<Longrightarrow> P x \<Longrightarrow> updateFound P g (xs @ [x]) = xs @ [g x]"
  by (induction xs) (auto split: if_splits)

lemma upsertEvent_idem: "upsertEvent ed (upsertEvent ed evs) = upsertEvent ed evs"
proof (cases "find (\<lambda>e. type e = type ed) evs")
  case None
  have "upsertEvent ed (evs @ [ed]) = evs @ [ed]"
  proof (cases "componentNames ed")
    case None
    then show ?thesis using \<open>find (\<lambda>e. type e = type ed) evs = None\<close>
      by (simp add: upsertEvent_def find_append)
  next
    case (Some ns)
    then show ?thesis using \<open>find (\<lambda>e. type e = type ed) evs = None\<close>
      by (simp add: upsertEvent_def find_append updateFound_append_new mergeUnique_absorb)
  qed
  with None show ?thesis by (simp add: upsertEvent_def)
next
  case (Some ex)
  show ?thesis
  proof (cases "componentNames ex")
    case None
    with Some show ?thesis by (simp add: upsertEvent_def)
  next
    case exn: (Some existingNames)
    show ?thesis
    proof (cases "componentNames ed")
      case None
      with Some exn show ?thesis by (simp add: upsertEvent_def)
    next
      case edn: (Some incomingNames)
      let ?g = "\<lambda>e. e\<lparr>componentNames := Some (mergeUnique existingNames incomingNames)\<rparr>"
      let ?P = "\<lambda>e. type e = type ed"
      have one: "upsertEvent ed evs = updateFound ?P ?g evs"
        using Some exn edn by (simp add: upsertEvent_def)
      have fnd: "find ?P (updateFound ?P ?g evs) = Some (?g ex)"
        using Some by (simp add: find_updateFound)
      have "upsertEvent ed (updateFound ?P ?g evs) =
            updateFound ?P
              (\<lambda>e. e\<lparr>componentNames :=
                   Some (mergeUnique (mergeUnique existingNames incomingNames) incomingNames)\<rparr>)
              (updateFound ?P ?g evs)"
        using fnd edn by (simp add: upsertEvent_def)
      also have "\<dots> = updateFound ?P ?g (updateFound ?P ?g evs)"
        by (simp add: mergeUnique_absorb set_mergeUnique)
      also have "\<dots> = updateFound ?P (\<lambda>x. ?g (?g x)) evs"
        by (simp add: updateFound_twice)
      also have "\<dots> = updateFound ?P ?g evs"
        by simp
      finally show ?thesis using one by simp
    qed
  qed
qed

lemma upsertExisting_idem:
  "upsertExisting e ft (upsertExisting e ft fe) = upsertExisting e ft fe"
  by (cases fe)
     (auto simp: upsertExisting_def Let_def upsertEvent_idem mergeUnique_absorb set_mergeUnique
      split: option.splits)

lemma upsertFunctionEvent_idem:
  "upsertFunctionEvent c f e ft (upsertFunctionEvent c f e ft reg)
     = upsertFunctionEvent c f e ft reg"
proof (cases "find (\<lambda>event. functionName event = f) (getFormEvents reg c)")
  case None
  let ?new = "\<lparr>functionName = f, formTypes = ft,
               events = (case e of None \<Rightarrow> [] | Some ed \<Rightarrow> [ed])\<rparr>"
  have new: "upsertExisting e ft ?new = ?new"
    by (auto simp: upsertExisting_def Let_def upsertEvent_def mergeUnique_absorb
        split: option.splits)
  have one: "upsertFunctionEvent c f e ft reg = reg(c \<mapsto> getFormEvents reg c @ [?new])"
    using None by (simp add: upsertFunctionEvent_def Let_def)
  have two: "upsertFunctionEvent c f e ft (reg(c \<mapsto> getFormEvents reg c @ [?new]))
          = reg(c \<mapsto> getFormEvents reg c @ [?new])"
    using None new
    by (simp add: upsertFunctionEvent_def Let_def getFormEvents_def find_append
        updateFound_append_new split: option.splits)
  show ?thesis by (simp only: one two)
next
  case (Some fe)
  let ?P = "\<lambda>event. functionName event = f"
  let ?g = "upsertExisting e ft"
  have one: "upsertFunctionEvent c f e ft reg = reg(c \<mapsto> updateFound ?P ?g (getFormEvents reg c))"
    using Some by (simp add: upsertFunctionEvent_def Let_def)
  have fnd: "find ?P (updateFound ?P ?g (getFormEvents reg c)) = Some (?g fe)"
    using Some by (simp add: find_updateFound functionName_upsertExisting)
  have two: "upsertFunctionEvent c f e ft (reg(c \<mapsto> updateFound ?P ?g (getFormEvents reg c)))
          = reg(c \<mapsto> updateFound ?P ?g (updateFound ?P ?g (getFormEvents reg c)))"
    using fnd by (simp add: upsertFunctionEvent_def Let_def getFormEvents_def)
  have three: "updateFound ?P ?g (updateFound ?P ?g (getFormEvents reg c))
          = updateFound ?P ?g (getFormEvents reg c)"
    by (simp add: updateFound_twice functionName_upsertExisting upsertExisting_idem)
  show ?thesis by (simp only: one two three)
qed

text \<open>
  Claim C6, the part the code does not have. The registry never removes duplicates
  from the name list of a single call: the first call for a method stores the list
  as given, and \<open>mergeUnique\<close> filters the incoming names against the existing
  list only. One call with the names \<open>a, a\<close> leaves a name list with a duplicate,
  also when it is merged into an existing list.
\<close>

theorem duplicate_names_in_one_call_counterexample:
  "getFormEvents
     (upsertAll [(0::nat, ''m'', Some \<lparr>type = OnChange, componentNames = Some [''a'', ''a'']\<rparr>, None)]
        Map.empty) 0
     = [\<lparr>functionName = ''m'', formTypes = None,
         events = [\<lparr>type = OnChange, componentNames = Some [''a'', ''a'']\<rparr>]\<rparr>]
   \<and> \<not> allNamesUnique
         (getFormEvents
            (upsertAll [(0::nat, ''m'',
                         Some \<lparr>type = OnChange, componentNames = Some [''a'', ''a'']\<rparr>, None)]
               Map.empty) 0)
   \<and> mergeUnique [''b''] [''a'', ''a''] = [''b'', ''a'', ''a'']"
  by (simp add: upsertAll_def upsertFunctionEvent_def getFormEvents_def Let_def
      allNamesUnique_def namesUnique_def mergeUnique_def)

text \<open>
  Claim C6, amended. After any run of \<open>upsertFunctionEvent\<close> calls on the empty
  registry, every class has at most one entry per method name and every entry at
  most one event detail per kind. If no call brings a name list that repeats a
  name, no stored name list repeats a name; merging names that are all present
  already changes nothing. A second call with the arguments of the call just made
  leaves the registry as it is.
\<close>

theorem registry_invariants:
  "distinct (map functionName (getFormEvents (upsertAll cs Map.empty) c))
   \<and> kindsUnique (getFormEvents (upsertAll cs Map.empty) c)
   \<and> (list_all callNamesUnique cs \<longrightarrow>
        allNamesUnique (getFormEvents (upsertAll cs Map.empty) c))
   \<and> (set incoming \<subseteq> set existing \<longrightarrow> mergeUnique existing incoming = existing)
   \<and> upsertFunctionEvent c f e ft (upsertFunctionEvent c f e ft reg)
       = upsertFunctionEvent c f e ft reg"
proof -
  have empty: "getFormEvents Map.empty c = []"
    by (simp add: getFormEvents_def)
  have "distinct (map functionName (getFormEvents (upsertAll cs Map.empty) c))
        \<and> kindsUnique (getFormEvents (upsertAll cs Map.empty) c)"
    by (rule upsertAll_invariants) (simp_all add: empty kindsUnique_def)
  moreover have "list_all callNamesUnique cs \<longrightarrow>
        allNamesUnique (getFormEvents (upsertAll cs Map.empty) c)"
  proof
    assume u: "list_all callNamesUnique cs"
    have "allNamesUnique (getFormEvents Map.empty c)"
      by (simp add: empty allNamesUnique_def)
    from upsertAll_allNamesUnique [OF this u]
    show "allNamesUnique (getFormEvents (upsertAll cs Map.empty) c)" .
  qed
  moreover have "set incoming \<subseteq> set existing \<longrightarrow> mergeUnique existing incoming = existing"
    by (simp add: mergeUnique_absorb)
  ultimately show ?thesis
    by (simp add: upsertFunctionEvent_idem)
qed

text \<open>
  The run \<open>exCalls\<close>: its name lists repeat no name, and neither does the entry
  it leaves, where the name \<open>firstname\<close> that two calls bring is stored once.
\<close>

theorem registry_invariants_witness:
  "list_all callNamesUnique exCalls
   \<and> allNamesUnique (getFormEvents (upsertAll exCalls Map.empty) 0)
   \<and> distinct (map functionName (getFormEvents (upsertAll exCalls Map.empty) 0))
   \<and> kindsUnique (getFormEvents (upsertAll exCalls Map.empty) 0)
   \<and> set [''firstname''] \<subseteq> set [''firstname'', ''lastname'']
   \<and> mergeUnique [''firstname'', ''lastname''] [''firstname''] = [''firstname'', ''lastname'']
   \<and> getFormEvents (upsertAll exCalls Map.empty) 0
       = [\<lparr>functionName = ''onNameChange'', formTypes = Some [Create, Update, ReadOnly],
           events = [\<lparr>type = OnChange, componentNames = Some [''firstname'', ''lastname'']\<rparr>,
                     \<lparr>type = OnLoad, componentNames = None\<rparr>]\<rparr>]"
proof -
  have u: "list_all callNamesUnique exCalls"
    by (simp add: exCalls_def callNamesUnique_def namesUnique_def)
  have s: "set [''firstname''] \<subseteq> set [''firstname'', ''lastname'']"
    by simp
  have g: "getFormEvents (upsertAll exCalls Map.empty) 0
       = [\<lparr>functionName = ''onNameChange'', formTypes = Some [Create, Update, ReadOnly],
           events = [\<lparr>type = OnChange, componentNames = Some [''firstname'', ''lastname'']\<rparr>,
                     \<lparr>type = OnLoad, componentNames = None\<rparr>]\<rparr>]"
    by (simp add: exCalls_def upsertAll_def upsertFunctionEvent_def getFormEvents_def
        upsertExisting_def upsertEvent_def mergeUnique_def Let_def)
  show ?thesis
    using registry_invariants [of exCalls 0 "[''firstname'']" "[''firstname'', ''lastname'']"] u s g
    by simp
qed


section \<open>Properties of the dispatcher\<close>

subsection \<open>Iteration and passes\<close>

lemma resultState_simps [simp]:
  "resultState (Inl (err, s)) = s" "resultState (Inr s) = s"
  by (simp_all add: resultState_def)

lemma forEach_skip:
  "(\<And>x s. x \<in> set xs \<Longrightarrow> \<not> P x \<Longrightarrow> body x s = Inr s) \<Longrightarrow>
   forEach body (filter P xs) s = forEach body xs s"
  by (induction xs arbitrary: s) (auto split: sum.splits)


lemma forEach_cong:
  "(\<And>x s. x \<in> set xs \<Longrightarrow> body x s = body' x s) \<Longrightarrow> forEach body xs s = forEach body' xs s"
  by (induction xs arbitrary: s) (auto split: sum.splits)

lemma forEach_calls:
  fixes s :: "'i DispatchState"
  assumes "\<And>x s. x \<in> set xs \<Longrightarrow>
             \<exists>new. calls (resultState (body x s)) = calls s @ new \<and> list_all Q new"
  shows "\<exists>new. calls (resultState (forEach body xs s)) = calls s @ new \<and> list_all Q new"
  using assms
proof (induction xs arbitrary: s)
  case Nil
  show ?case by simp
next
  case (Cons x xs)
  obtain new1 where n1: "calls (resultState (body x s)) = calls s @ new1" "list_all Q new1"
    using Cons.prems [of x s] by auto
  show ?case
  proof (cases "body x s")
    case (Inl a)
    then show ?thesis using n1 by (cases a) auto
  next
    case (Inr s1)
    obtain new2 where n2: "calls (resultState (forEach body xs s1)) = calls s1 @ new2"
        "list_all Q new2"
      using Cons.IH [of s1] Cons.prems by auto
    show ?thesis using Inr n1 n2 by auto
  qed
qed

lemma forEach_no_throw:
  "(\<And>x s. x \<in> set xs \<Longrightarrow> \<exists>s'. body x s = Inr s') \<Longrightarrow> \<exists>s'. forEach body xs s = Inr s'"
proof (induction xs arbitrary: s)
  case Nil
  show ?case by simp
next
  case (Cons x xs)
  obtain s1 where "body x s = Inr s1" using Cons.prems [of x s] by auto
  moreover obtain s2 where "forEach body xs s1 = Inr s2" using Cons.IH [of s1] Cons.prems by auto
  ultimately show ?case by simp
qed

lemmas pass_defs =
  applyOnDataLoadEvents_def applyOnLoadEvents_def applyLoadedEvents_def applyOnSaveEvents_def
  applyOnPostSaveEvents_def applyOnTabStateChangeEvents_def applyOnTabSpecificStateEvents_def
  applyOnTabExpandEvents_def applyOnTabCollapseEvents_def applyOnChangeEvents_def
  applyOnLookupTagClickEvents_def applyPreSearchEvents_def applySubGridOnLoadEvents_def
  applySubGridOnRecordSelectEvents_def applyOnReadyStateCompleteEvents_def
  applyOnProcessStatusChangeEvents_def applyOnPreProcessStatusChangeEvents_def
  applyOnPreStageChangeEvents_def applyOnStageChangeEvents_def applyOnStageSelectedEvents_def
  applyOnOutputChangeEvents_def applyOnResultOpenedEvents_def applyOnSelectionEvents_def
  applyPostSearchEvents_def

lemma filter_swap: "filter Q (filter P xs) = filter P (filter Q xs)"
  by (induction xs) auto

lemma applySimpleEvents_filter:
  assumes "\<And>h. \<not> P h \<Longrightarrow>
             \<not> isFormTypeAuthorized (formTypes h) ft \<or> member inst (functionName h) = Falsy"
  shows "applySimpleEvents inst (filter P hs) fc ft et opn = applySimpleEvents inst hs fc ft et opn"
proof
  fix s :: "'b DispatchState"
  have skip: "\<And>h s. \<not> P h \<Longrightarrow> simpleBody inst ft opn h (s :: 'b DispatchState) = Inr s"
    using assms by (auto simp: simpleBody_def)
  show "applySimpleEvents inst (filter P hs) fc ft et opn s = applySimpleEvents inst hs fc ft et opn s"
    unfolding applySimpleEvents_def Let_def
    by (subst filter_swap) (rule forEach_skip, simp add: skip)
qed

lemma applyComponentEvents_filter:
  assumes "\<And>h. \<not> P h \<Longrightarrow>
             \<not> isFormTypeAuthorized (formTypes h) ft \<or> member inst (functionName h) = Falsy"
  shows "applyComponentEvents inst (filter P hs) fc ft et gi chk gn reg
           = applyComponentEvents inst hs fc ft et gi chk gn reg"
proof
  fix s :: "'b DispatchState"
  have skip: "\<And>h s. \<not> P h \<Longrightarrow>
      componentBody inst fc ft et gi chk gn reg h (s :: 'b DispatchState) = Inr s"
    using assms by (auto simp: componentBody_def)
  show "applyComponentEvents inst (filter P hs) fc ft et gi chk gn reg s
           = applyComponentEvents inst hs fc ft et gi chk gn reg s"
    unfolding applyComponentEvents_def Let_def
    by (subst filter_swap) (rule forEach_skip, simp add: skip)
qed

lemma dispatchPasses_filter:
  assumes "\<And>h. \<not> P h \<Longrightarrow>
             \<not> isFormTypeAuthorized (formTypes h) ft \<or> member inst (functionName h) = Falsy"
  shows "dispatchPasses inst (filter P hs) fc ft = dispatchPasses inst hs fc ft"
proof -
  have a: "\<And>et opn. applySimpleEvents inst (filter P hs) fc ft et opn
             = applySimpleEvents inst hs fc ft et opn"
    by (rule applySimpleEvents_filter) (use assms in auto)
  have b: "\<And>et gi chk gn reg. applyComponentEvents inst (filter P hs) fc ft et gi chk gn reg
             = applyComponentEvents inst hs fc ft et gi chk gn reg"
    by (rule applyComponentEvents_filter) (use assms in auto)
  show ?thesis
    unfolding dispatchPasses_def pass_defs by (simp only: a b)
qed

lemma runPasses_filter:
  assumes "\<And>h. \<not> P h \<Longrightarrow>
             \<not> isFormTypeAuthorized (formTypes h) ft \<or> member inst (functionName h) = Falsy"
  shows "runPasses inst (filter P hs) fc ft s = runPasses inst hs fc ft s"
proof -
  have "dispatchPasses inst (filter P hs) fc ft = dispatchPasses inst hs fc ft"
    by (rule dispatchPasses_filter) (use assms in auto)
  then show ?thesis by (simp only: runPasses_def)
qed




lemma simpleBody_calls:
  "\<exists>new. calls (resultState (simpleBody inst ft opn h s)) = calls s @ new
         \<and> list_all (callFor inst [h] ft) new"
  by (cases "member inst (functionName h)") (auto simp: simpleBody_def callFor_def)

lemma callFor_mono: "set hs \<subseteq> set hs' \<Longrightarrow> callFor inst hs ft c \<Longrightarrow> callFor inst hs' ft c"
  by (auto simp: callFor_def list_ex_iff)

lemma body_calls_mono:
  assumes "\<exists>new. calls (resultState r) = calls s @ new \<and> list_all (callFor inst [h] ft) new"
    and "h \<in> set hs"
  shows "\<exists>new. calls (resultState r) = calls s @ new \<and> list_all (callFor inst hs ft) new"
proof -
  from assms(1) obtain new where n: "calls (resultState r) = calls s @ new"
      "list_all (callFor inst [h] ft) new" by blast
  have "set [h] \<subseteq> set hs" using assms(2) by simp
  from callFor_mono [OF this] n(2) have "list_all (callFor inst hs ft) new"
    by (auto simp: list_all_iff)
  with n(1) show ?thesis by blast
qed

lemma applySimpleEvents_calls:
  "\<exists>new. calls (resultState (applySimpleEvents inst hs fc ft et opn s)) = calls s @ new
         \<and> list_all (callFor inst hs ft) new"
  unfolding applySimpleEvents_def Let_def
  by (rule forEach_calls) (auto intro!: body_calls_mono simpleBody_calls)

lemma calls_componentEventBody:
  "calls (componentEventBody inst fc ft et gi chk gn reg fname e s) =
     calls s @ (case componentNames e of
                  None \<Rightarrow> []
                | Some ns \<Rightarrow> reg fc (filter chk (gi fc ns)) (BoundMethod fname))"
  by (simp add: componentEventBody_def Let_def split: option.splits)

lemma calls_fold_componentEventBody:
  "calls (fold (componentEventBody inst fc ft et gi chk gn reg fname) es s) =
     calls s @ concat (map (\<lambda>e. case componentNames e of
                                  None \<Rightarrow> []
                                | Some ns \<Rightarrow> reg fc (filter chk (gi fc ns)) (BoundMethod fname))
                         es)"
  by (induction es arbitrary: s) (simp_all add: calls_componentEventBody)

lemma componentBody_calls:
  assumes "\<And>fc items h. list_all (\<lambda>c. callHandler c = h) (reg fc items h)"
  shows "\<exists>new. calls (resultState (componentBody inst fc ft et gi chk gn reg h s)) = calls s @ new
         \<and> list_all (callFor inst [h] ft) new"
proof (cases "isFormTypeAuthorized (formTypes h) ft \<and> member inst (functionName h) = Function")
  case False
  then show ?thesis
    by (cases "member inst (functionName h)") (auto simp: componentBody_def)
next
  case True
  have "list_all (callFor inst [h] ft)
          (concat (map (\<lambda>e. case componentNames e of
                                  None \<Rightarrow> []
                                | Some ns \<Rightarrow> reg fc (filter chk (gi fc ns))
                                             (BoundMethod (functionName h)))
                         es))" for es
    using True assms by (induction es) (auto simp: callFor_def list_all_iff split: option.splits)
  with True show ?thesis
    by (simp add: componentBody_def calls_fold_componentEventBody)
qed

lemma applyComponentEvents_calls:
  assumes "\<And>fc items h. list_all (\<lambda>c. callHandler c = h) (reg fc items h)"
  shows "\<exists>new. calls (resultState (applyComponentEvents inst hs fc ft et gi chk gn reg s))
                 = calls s @ new
         \<and> list_all (callFor inst hs ft) new"
  unfolding applyComponentEvents_def Let_def
  by (rule forEach_calls) (auto intro!: body_calls_mono componentBody_calls assms)

lemma dispatchPasses_calls:
  fixes fc :: "'i FormContext"
  shows "\<forall>pass \<in> set (dispatchPasses inst hs fc ft). \<forall>s.
           \<exists>new. calls (resultState (pass s)) = calls s @ new
                 \<and> list_all (callFor inst hs ft) new"
  unfolding dispatchPasses_def pass_defs
  by (simp add: applySimpleEvents_calls applyComponentEvents_calls list.pred_map comp_def
      list.pred_True)

lemma runPasses_calls:
  "\<exists>new. calls (resultState (runPasses inst hs fc ft s)) = calls s @ new
         \<and> list_all (callFor inst hs ft) new"
  unfolding runPasses_def
  by (rule forEach_calls) (use dispatchPasses_calls in blast)

lemma simpleBody_no_throw:
  "member inst (functionName h) \<noteq> TruthyNonFunction \<Longrightarrow>
   \<exists>s'. simpleBody inst ft opn h s = Inr s'"
  by (cases "member inst (functionName h)") (auto simp: simpleBody_def)

lemma componentBody_no_throw:
  "member inst (functionName h) \<noteq> TruthyNonFunction \<Longrightarrow>
   \<exists>s'. componentBody inst fc ft et gi chk gn reg h s = Inr s'"
  by (cases "member inst (functionName h)") (auto simp: componentBody_def)

lemma applySimpleEvents_no_throw:
  "\<forall>h \<in> set hs. member inst (functionName h) \<noteq> TruthyNonFunction \<Longrightarrow>
   \<exists>s'. applySimpleEvents inst hs fc ft et opn s = Inr s'"
  unfolding applySimpleEvents_def Let_def
  by (rule forEach_no_throw) (auto intro: simpleBody_no_throw)

lemma applyComponentEvents_no_throw:
  "\<forall>h \<in> set hs. member inst (functionName h) \<noteq> TruthyNonFunction \<Longrightarrow>
   \<exists>s'. applyComponentEvents inst hs fc ft et gi chk gn reg s = Inr s'"
  unfolding applyComponentEvents_def Let_def
  by (rule forEach_no_throw) (auto intro: componentBody_no_throw)

lemma runPasses_no_throw:
  assumes "\<forall>h \<in> set hs. member inst (functionName h) \<noteq> TruthyNonFunction"
  shows "\<exists>s'. runPasses inst hs fc ft s = Inr s'"
  unfolding runPasses_def
proof (rule forEach_no_throw)
  fix pass and s :: "'b DispatchState"
  assume "pass \<in> set (dispatchPasses inst hs fc ft)"
  then show "\<exists>s'. pass s = Inr s'"
    unfolding dispatchPasses_def pass_defs
    using applySimpleEvents_no_throw [OF assms] applyComponentEvents_no_throw [OF assms]
    by auto
qed

lemma forEach_reaches:
  fixes s :: "'i DispatchState"
  assumes "\<And>x s r. body x s = Inr r \<Longrightarrow> set (calls s) \<subseteq> set (calls r)"
    and "forEach body xs s = Inr s'" and "x \<in> set xs"
  shows "\<exists>s1 s2. body x s1 = Inr s2 \<and> set (calls s2) \<subseteq> set (calls s')"
  using assms(2,3)
proof (induction xs arbitrary: s)
  case Nil
  then show ?case by simp
next
  case (Cons y ys)
  from Cons.prems(1) obtain s1 where y: "body y s = Inr s1" and rest: "forEach body ys s1 = Inr s'"
    by (auto split: sum.splits)
  have mono: "set (calls s1) \<subseteq> set (calls s')"
    using rest
  proof (induction ys arbitrary: s1)
    case Nil
    then show ?case by simp
  next
    case (Cons z zs)
    from Cons.prems obtain s2 where z: "body z s1 = Inr s2" and r: "forEach body zs s2 = Inr s'"
      by (auto split: sum.splits)
    from assms(1) [OF z] Cons.IH [OF r] show ?case by blast
  qed
  show ?case
  proof (cases "x = y")
    case True
    with y mono show ?thesis by blast
  next
    case False
    with Cons.prems(2) have "x \<in> set ys" by simp
    from Cons.IH [OF rest this] show ?thesis .
  qed
qed

lemma componentBody_grows:
  "componentBody inst fc ft et gi chk gn reg h s = Inr r \<Longrightarrow> set (calls s) \<subseteq> set (calls r)"
  by (cases "member inst (functionName h)")
     (auto simp: componentBody_def calls_fold_componentEventBody split: if_splits)

lemma applyComponentEvents_registers:
  assumes run: "applyComponentEvents inst hs fc ft et gi chk gn reg s = Inr s'"
    and h: "h \<in> set hs" "isFormTypeAuthorized (formTypes h) ft"
      "member inst (functionName h) = Function"
    and e: "e \<in> set (events h)" "type e = et" "componentNames e = Some ns"
  shows "set (reg fc (filter chk (gi fc ns)) (BoundMethod (functionName h))) \<subseteq> set (calls s')"
proof -
  have "find (\<lambda>eventDetail. type eventDetail = et) (events h) \<noteq> None"
    using e(1,2) by (auto simp: find_None_iff)
  with h(1) have mem: "h \<in> set (filter (\<lambda>h. find (\<lambda>eventDetail. type eventDetail = et)
                                          (events h) \<noteq> None) hs)"
    by simp
  have run': "forEach (componentBody inst fc ft et gi chk gn reg)
                (filter (\<lambda>h. find (\<lambda>eventDetail. type eventDetail = et) (events h) \<noteq> None) hs) s
              = Inr s'"
    using run by (simp add: applyComponentEvents_def Let_def)
  have "\<exists>s1 s2. componentBody inst fc ft et gi chk gn reg h s1 = Inr s2
            \<and> set (calls s2) \<subseteq> set (calls s')"
    by (rule forEach_reaches [OF _ run' mem]) (rule componentBody_grows)
  then obtain s1 s2 where b: "componentBody inst fc ft et gi chk gn reg h s1 = Inr s2"
    and sub: "set (calls s2) \<subseteq> set (calls s')"
    by blast
  have "e \<in> set (filter (\<lambda>eventDetail. isMatchingComponentEvent eventDetail et) (events h))"
    using e by (simp add: isMatchingComponentEvent_def isComponentEventDetail_def)
  then have "set (reg fc (filter chk (gi fc ns)) (BoundMethod (functionName h)))
               \<subseteq> set (calls s2)"
    using b h(2,3) e(3)
    by (fastforce simp: componentBody_def calls_fold_componentEventBody)
  with sub show ?thesis by blast
qed




lemma calls_validateHandlers: "calls (validateHandlers inst hs s) = calls s"
  by (simp add: validateHandlers_def Let_def)

lemma calls_flushState: "calls (flushState s) = calls s"
  by (simp add: flushState_def flushGroupedWarnings_def)







subsection \<open>A class without entries\<close>

lemma getFormEvents_upsert_other:
  "c' \<noteq> c \<Longrightarrow> getFormEvents (upsertFunctionEvent c f e ft reg) c' = getFormEvents reg c'"
  by (simp add: getFormEvents_upsert)

lemma getFormEvents_upsertAll_other:
  "c \<notin> fst ` set cs \<Longrightarrow> getFormEvents (upsertAll cs reg) c = getFormEvents reg c"
proof (induction cs arbitrary: reg)
  case Nil
  show ?case by (simp add: upsertAll_def)
next
  case (Cons call cs)
  obtain c0 f e ft where call: "call = (c0, f, e, ft)" by (cases call) auto
  with Cons.prems have ne: "c \<noteq> c0" and rest: "c \<notin> fst ` set cs" by auto
  have "getFormEvents (upsertAll cs (upsertCall call reg)) c = getFormEvents (upsertCall call reg) c"
    by (rule Cons.IH [OF rest])
  then show ?case using ne by (simp add: upsertAll_def call getFormEvents_upsert_other)
qed

lemma runPasses_Nil: "runPasses inst [] fc ft s = Inr s"
  by (simp add: runPasses_def dispatchPasses_def pass_defs applySimpleEvents_def
      applyComponentEvents_def)

lemma dispatcherApply_no_entries:
  "getFormEvents reg (ctor inst) = [] \<Longrightarrow>
   dispatcherApply reg inst fc ft s = Inr (flushState s)"
  by (simp add: dispatcherApply_def Let_def validateHandlers_def runPasses_Nil)

text \<open>
  Claim C8, the part the code does not have. \<open>warningCounts\<close> belongs to the
  module, and \<open>apply\<close> flushes whatever it holds. A run that throws ends before
  its flush and leaves its warnings queued: here the run for class 0 queues the
  warning about \<open>first\<close> and throws in the load pass. The next run, for an
  instance of class 1, which has no entry, emits that warning.
\<close>

theorem leftover_warnings_counterexample:
  "dispatcherApply exLeftoverRegistry
     \<lparr>ctor = 0, ctorName = ''ContactForm'',
      member = (\<lambda>n. if n = ''onLoad'' then TruthyNonFunction else Function)\<rparr>
     (exampleForm []) Create emptyState
   = Inl (TypeError, exLeftoverState)
   \<and> getFormEvents exLeftoverRegistry 1 = []
   \<and> dispatcherApply exLeftoverRegistry
       \<lparr>ctor = 1, ctorName = ''AccountForm'', member = (\<lambda>n. Falsy)\<rparr>
       (exampleForm []) Create exLeftoverState
     = Inr (emptyState\<lparr>warned :=
              ['' [D365FormEventDispatcher] ContactForm.validateHandlers - Method ''
                 @ [CHR 0x22] @ ''first'' @ [CHR 0x22]
                 @ '' has @FormTypes but no events.'']\<rparr>)"
  by code_simp

text \<open>
  Claim C8, amended. For a class that no \<open>upsertFunctionEvent\<close> call has named,
  \<open>getFormEvents\<close> returns the empty list, and \<open>FormEventDispatcher.apply\<close> on an
  instance of the class returns without a throw, makes no call on the host and
  queues no warning: all it does is flush the warnings that were queued before it
  started, so from an empty queue it emits nothing and leaves the state as it was.
\<close>

theorem no_entries_safety:
  "(ctor inst \<notin> fst ` set cs \<longrightarrow>
      getFormEvents (upsertAll cs Map.empty) (ctor inst) = []
      \<and> dispatcherApply (upsertAll cs Map.empty) inst fc ft s
          = Inr (s\<lparr>warningCounts := [], warned := warned s @ map warningLine (warningCounts s)\<rparr>)
      \<and> dispatcherApply (upsertAll cs Map.empty) inst fc ft
            \<lparr>calls = cls, warningCounts = [], warned = wd\<rparr>
          = Inr \<lparr>calls = cls, warningCounts = [], warned = wd\<rparr>)"
proof
  assume a: "ctor inst \<notin> fst ` set cs"
  have g: "getFormEvents (upsertAll cs Map.empty) (ctor inst) = []"
    using getFormEvents_upsertAll_other [OF a, of Map.empty] by (simp add: getFormEvents_def)
  show "getFormEvents (upsertAll cs Map.empty) (ctor inst) = []
      \<and> dispatcherApply (upsertAll cs Map.empty) inst fc ft s
          = Inr (s\<lparr>warningCounts := [], warned := warned s @ map warningLine (warningCounts s)\<rparr>)
      \<and> dispatcherApply (upsertAll cs Map.empty) inst fc ft
            \<lparr>calls = cls, warningCounts = [], warned = wd\<rparr>
          = Inr \<lparr>calls = cls, warningCounts = [], warned = wd\<rparr>"
    by (simp add: g dispatcherApply_no_entries flushState_def flushGroupedWarnings_def)
qed

text \<open>
  A registry that holds an entry for class 1 only, and an instance of class 0.
\<close>

theorem no_entries_safety_witness:
  "ctor (exampleInstance [''onNameChange'']) \<notin> fst ` set [(1::nat, ''onNameChange'', Some \<lparr>type = OnChange, componentNames = Some [''firstname'']\<rparr>, None)]
   \<and> getFormEvents (upsertAll [(1::nat, ''onNameChange'', Some \<lparr>type = OnChange, componentNames = Some [''firstname'']\<rparr>, None)] Map.empty) 0 = []
   \<and> dispatcherApply (upsertAll [(1::nat, ''onNameChange'', Some \<lparr>type = OnChange, componentNames = Some [''firstname'']\<rparr>, None)] Map.empty)
        (exampleInstance [''onNameChange''])
        (exampleForm [\<lparr>compName = ''firstname'', sorts = [AttributeSort]\<rparr>]) Create emptyState
       = Inr emptyState"
proof -
  have a: "ctor (exampleInstance [''onNameChange'']) \<notin> fst ` set [(1::nat, ''onNameChange'', Some \<lparr>type = OnChange, componentNames = Some [''firstname'']\<rparr>, None)]"
    by (simp add: exampleInstance_def)
  show ?thesis
    using a no_entries_safety [of "exampleInstance [''onNameChange'']"
        "[(1::nat, ''onNameChange'', Some \<lparr>type = OnChange, componentNames = Some [''firstname'']\<rparr>, None)]"
        "exampleForm [\<lparr>compName = ''firstname'', sorts = [AttributeSort]\<rparr>]" Create emptyState "[]" "[]"]
    by (simp add: emptyState_def exampleInstance_def)
qed

subsection \<open>The form type filter\<close>

lemma dispatcherApply_calls:
  "\<exists>new. calls (resultState (dispatcherApply reg inst fc ft s)) = calls s @ new
         \<and> list_all (callFor inst (getFormEvents reg (ctor inst)) ft) new"
proof -
  let ?hs = "getFormEvents reg (ctor inst)"
  obtain new where n:
    "calls (resultState (runPasses inst ?hs fc ft (validateHandlers inst ?hs s)))
       = calls (validateHandlers inst ?hs s) @ new"
    "list_all (callFor inst ?hs ft) new"
    using runPasses_calls by blast
  have "calls (resultState (dispatcherApply reg inst fc ft s))
          = calls (resultState (runPasses inst ?hs fc ft (validateHandlers inst ?hs s)))"
    by (auto simp: dispatcherApply_def Let_def calls_flushState split: sum.splits)
  with n show ?thesis by (auto simp: calls_validateHandlers)
qed

lemma madeCalls_dispatcherApply:
  "list_all (callFor inst (getFormEvents reg (ctor inst)) ft)
     (madeCalls s (dispatcherApply reg inst fc ft s))"
  using dispatcherApply_calls [of reg inst fc ft s] by (auto simp: madeCalls_def)








subsection \<open>Members of the instance\<close>

text \<open>
  Claim C9, the part the code does not have. The guard of both loops is
  \<open>if (!instance[functionName]) continue\<close>: it skips a member that is missing or
  falsy. A member that is truthy and not a function passes the guard, and
  \<open>instance[functionName].bind(instance)\<close> throws a \<open>TypeError\<close>: here \<open>onLoad\<close>
  is such a member, and the run ends with the throw in the load pass, before any
  call on the host.
\<close>

theorem non_callable_member_counterexample:
  "dispatcherApply exLoadRegistry
     \<lparr>ctor = 0, ctorName = ''ContactForm'',
      member = (\<lambda>n. if n = ''onLoad'' then TruthyNonFunction else Function)\<rparr>
     (exampleForm [\<lparr>compName = ''firstname'', sorts = [AttributeSort]\<rparr>]) Create emptyState
   = Inl (TypeError, emptyState)"
  by code_simp

text \<open>
  Claim C9, amended. An entry whose method name is no member of the instance, or a
  member with a falsy value, is skipped by every pass: the passes do the same as
  on the other entries alone, so the entry raises nothing, gets no listener and
  queues no warning there. If no entry of the class names a member that is truthy
  and not a function, the run returns without a throw. Every call that a run makes
  on the host is for a method that is a function of the instance.
\<close>

theorem missing_member_skipped:
  "runPasses inst hs fc ft s
     = runPasses inst (filter (\<lambda>h. member inst (functionName h) \<noteq> Falsy) hs) fc ft s
   \<and> ((\<forall>h \<in> set (getFormEvents reg (ctor inst)).
          member inst (functionName h) \<noteq> TruthyNonFunction) \<longrightarrow>
        (\<exists>s'. dispatcherApply reg inst fc ft s = Inr s'))
   \<and> list_all (callFor inst (getFormEvents reg (ctor inst)) ft)
         (madeCalls s (dispatcherApply reg inst fc ft s))"
proof -
  have "runPasses inst (filter (\<lambda>h. member inst (functionName h) \<noteq> Falsy) hs) fc ft s
          = runPasses inst hs fc ft s"
    by (rule runPasses_filter) simp
  moreover have "(\<forall>h \<in> set (getFormEvents reg (ctor inst)).
          member inst (functionName h) \<noteq> TruthyNonFunction) \<longrightarrow>
        (\<exists>s'. dispatcherApply reg inst fc ft s = Inr s')"
  proof
    assume a: "\<forall>h \<in> set (getFormEvents reg (ctor inst)).
          member inst (functionName h) \<noteq> TruthyNonFunction"
    from runPasses_no_throw [OF a] obtain s' where
      "runPasses inst (getFormEvents reg (ctor inst)) fc ft
         (validateHandlers inst (getFormEvents reg (ctor inst)) s) = Inr s'"
      by blast
    then show "\<exists>s'. dispatcherApply reg inst fc ft s = Inr s'"
      by (simp add: dispatcherApply_def Let_def)
  qed
  ultimately show ?thesis
    by (simp add: madeCalls_dispatcherApply)
qed

text \<open>
  An instance without the method \<open>onLoad\<close>: the run returns, and its only call
  subscribes the change handler.
\<close>

theorem missing_member_skipped_witness:
  "list_all (\<lambda>h. member (exampleInstance [''onNameChange'']) (functionName h) \<noteq> TruthyNonFunction)
     (getFormEvents exLoadRegistry 0)
   \<and> map functionName (getFormEvents exLoadRegistry 0) = [''onLoad'', ''onNameChange'']
   \<and> member (exampleInstance [''onNameChange'']) ''onLoad'' = Falsy
   \<and> dispatcherApply exLoadRegistry (exampleInstance [''onNameChange''])
        (exampleForm [\<lparr>compName = ''firstname'', sorts = [AttributeSort]\<rparr>]) Create emptyState
       = Inr (emptyState\<lparr>calls :=
                [BatchCall addOnChange [\<lparr>compName = ''firstname'', sorts = [AttributeSort]\<rparr>]
                   (BoundMethod ''onNameChange'')]\<rparr>)"
proof -
  have g: "getFormEvents exLoadRegistry 0 =
      [\<lparr>functionName = ''onLoad'', formTypes = None,
         events = [\<lparr>type = OnLoad, componentNames = None\<rparr>]\<rparr>,
       \<lparr>functionName = ''onNameChange'', formTypes = None,
         events = [\<lparr>type = OnChange, componentNames = Some [''firstname'']\<rparr>]\<rparr>]"
    by code_simp
  have m: "\<forall>h \<in> set (getFormEvents exLoadRegistry (ctor (exampleInstance [''onNameChange'']))).
          member (exampleInstance [''onNameChange'']) (functionName h) \<noteq> TruthyNonFunction"
    by (simp add: exampleInstance_def g)
  have d: "dispatcherApply exLoadRegistry (exampleInstance [''onNameChange''])
        (exampleForm [\<lparr>compName = ''firstname'', sorts = [AttributeSort]\<rparr>]) Create emptyState
       = Inr (emptyState\<lparr>calls :=
                [BatchCall addOnChange [\<lparr>compName = ''firstname'', sorts = [AttributeSort]\<rparr>]
                   (BoundMethod ''onNameChange'')]\<rparr>)"
    by code_simp
  show ?thesis
    using missing_member_skipped [where inst = "exampleInstance [''onNameChange'']"
        and reg = exLoadRegistry and hs = "getFormEvents exLoadRegistry 0"
        and fc = "exampleForm [\<lparr>compName = ''firstname'', sorts = [AttributeSort]\<rparr>]"
        and ft = Create and s = emptyState] m d
    by (simp add: g exampleInstance_def)
qed

subsection \<open>Tab expand and tab collapse\<close>

lemma componentBody_calls_shape:
  assumes "\<And>fc items h. list_all Q (reg fc items h)"
  shows "\<exists>new. calls (resultState (componentBody inst fc ft et gi chk gn reg h s)) = calls s @ new
         \<and> list_all Q new"
proof (cases "isFormTypeAuthorized (formTypes h) ft \<and> member inst (functionName h) = Function")
  case False
  then show ?thesis
    by (cases "member inst (functionName h)") (auto simp: componentBody_def)
next
  case True
  have "list_all Q
          (concat (map (\<lambda>e. case componentNames e of
                                  None \<Rightarrow> []
                                | Some ns \<Rightarrow> reg fc (filter chk (gi fc ns))
                                             (BoundMethod (functionName h)))
                         es))" for es
    using assms by (induction es) (auto split: option.splits)
  with True show ?thesis
    by (simp add: componentBody_def calls_fold_componentEventBody)
qed

lemma applyComponentEvents_calls_shape:
  assumes "\<And>fc items h. list_all Q (reg fc items h)"
  shows "\<exists>new. calls (resultState (applyComponentEvents inst hs fc ft et gi chk gn reg s))
                 = calls s @ new
         \<and> list_all Q new"
  unfolding applyComponentEvents_def Let_def
  by (rule forEach_calls) (rule componentBody_calls_shape, rule assms)

lemma tabSpecific_madeCalls:
  "list_all (isTabGate st)
     (madeCalls s (applyOnTabSpecificStateEvents inst hs fc ft et st s))"
proof -
  have "\<exists>new. calls (resultState (applyOnTabSpecificStateEvents inst hs fc ft et st s))
                 = calls s @ new
         \<and> list_all (isTabGate st) new"
    unfolding applyOnTabSpecificStateEvents_def
    by (rule applyComponentEvents_calls_shape) (simp add: list.pred_map comp_def list.pred_True)
  then show ?thesis by (auto simp: madeCalls_def)
qed

lemma tabSpecific_registers:
  assumes "applyOnTabSpecificStateEvents inst hs fc ft et st s = Inr s'"
    and "h \<in> set hs" "isFormTypeAuthorized (formTypes h) ft"
      "member inst (functionName h) = Function"
    and "e \<in> set (events h)" "type e = et" "componentNames e = Some ns"
    and "tab \<in> set (getTab fc ns)" "isTabControl fc tab"
  shows "TabCall tab (TabStateListener st (BoundMethod (functionName h))) \<in> set (calls s')"
proof -
  have "set (map (\<lambda>tabControl. TabCall tabControl
                     (TabStateListener st (BoundMethod (functionName h))))
               (filter (isTabControl fc) (getTab fc ns)))
          \<subseteq> set (calls s')"
    using assms(1) unfolding applyOnTabSpecificStateEvents_def
    by (rule applyComponentEvents_registers) (rule assms)+
  with assms(8,9) show ?thesis by auto
qed

lemma fireListener_iff:
  "fireListener (TabStateListener st handler) ctx =
     (if \<exists>tab. getEventSource ctx = Some tab \<and> getDisplayState ctx tab = st
      then [Invoke handler ctx] else [])"
  by (auto split: option.splits)

text \<open>
  Claim C3. When the tab-expand pass returns, every tab that the form resolves for
  a name of a tab-expand detail of a processed entry (filter admits the form type,
  method is a function) has received, through its own \<open>addTabStateChange\<close>, the
  listener that closes over the display state expanded and the bound method; the
  pass makes no other kind of call. The same holds for tab-collapse with the state
  collapsed. Run on the execution context of an event, such a listener reads the
  event source and its display state from that context and calls the user handler,
  with that context, if and only if there is an event source and its display state
  is the one the listener closes over.
\<close>

theorem tab_expand_collapse_gating:
  "(applyOnTabExpandEvents inst hs fc ft s = Inr s' \<and> h \<in> set hs
      \<and> isFormTypeAuthorized (formTypes h) ft \<and> member inst (functionName h) = Function
      \<and> e \<in> set (events h) \<and> type e = OnTabExpand \<and> componentNames e = Some ns
      \<and> tab \<in> set (getTab fc ns) \<and> isTabControl fc tab
      \<longrightarrow> TabCall tab (TabStateListener expanded (BoundMethod (functionName h)))
            \<in> set (calls s'))
   \<and> (applyOnTabCollapseEvents inst hs fc ft s = Inr s' \<and> h \<in> set hs
      \<and> isFormTypeAuthorized (formTypes h) ft \<and> member inst (functionName h) = Function
      \<and> e \<in> set (events h) \<and> type e = OnTabCollapse \<and> componentNames e = Some ns
      \<and> tab \<in> set (getTab fc ns) \<and> isTabControl fc tab
      \<longrightarrow> TabCall tab (TabStateListener collapsed (BoundMethod (functionName h)))
            \<in> set (calls s'))
   \<and> list_all (isTabGate expanded) (madeCalls s (applyOnTabExpandEvents inst hs fc ft s))
   \<and> list_all (isTabGate collapsed) (madeCalls s (applyOnTabCollapseEvents inst hs fc ft s))
   \<and> fireListener (TabStateListener st handler) ctx =
       (if \<exists>tab. getEventSource ctx = Some tab \<and> getDisplayState ctx tab = st
        then [Invoke handler ctx] else [])"
  unfolding applyOnTabExpandEvents_def applyOnTabCollapseEvents_def
  using tabSpecific_registers [of inst hs fc ft OnTabExpand expanded s s' h e ns tab]
    tabSpecific_registers [of inst hs fc ft OnTabCollapse collapsed s s' h e ns tab]
  by (simp add: tabSpecific_madeCalls fireListener_iff del: fireListener.simps)

text \<open>
  Each pass hands the tab one listener; the expand listener calls its handler on an
  event of the expanded tab and not on one of the collapsed tab, and conversely.
\<close>

theorem tab_expand_collapse_gating_witness:
  "getFormEvents exTabRegistry 0 =
     [\<lparr>functionName = ''onTabOpen'', formTypes = None,
        events = [\<lparr>type = OnTabExpand, componentNames = Some [''T1'']\<rparr>]\<rparr>,
      \<lparr>functionName = ''onTabClose'', formTypes = None,
        events = [\<lparr>type = OnTabCollapse, componentNames = Some [''T1'']\<rparr>]\<rparr>]
   \<and> applyOnTabExpandEvents (exampleInstance [''onTabOpen'', ''onTabClose''])
         (getFormEvents exTabRegistry 0) (exampleForm [exTab]) Create emptyState
       = Inr (emptyState\<lparr>calls :=
                [TabCall exTab (TabStateListener expanded (BoundMethod ''onTabOpen''))]\<rparr>)
   \<and> applyOnTabCollapseEvents (exampleInstance [''onTabOpen'', ''onTabClose''])
         (getFormEvents exTabRegistry 0) (exampleForm [exTab]) Create emptyState
       = Inr (emptyState\<lparr>calls :=
                [TabCall exTab (TabStateListener collapsed (BoundMethod ''onTabClose''))]\<rparr>)
   \<and> TabCall exTab (TabStateListener expanded (BoundMethod ''onTabOpen''))
       \<in> set (calls (emptyState\<lparr>calls :=
                [TabCall exTab (TabStateListener expanded (BoundMethod ''onTabOpen''))]\<rparr>))
   \<and> TabCall exTab (TabStateListener collapsed (BoundMethod ''onTabClose''))
       \<in> set (calls (emptyState\<lparr>calls :=
                [TabCall exTab (TabStateListener collapsed (BoundMethod ''onTabClose''))]\<rparr>))
   \<and> fireListener (TabStateListener expanded (BoundMethod ''onTabOpen''))
         \<lparr>getEventSource = Some exTab, getDisplayState = (\<lambda>tab. expanded)\<rparr>
       = [Invoke (BoundMethod ''onTabOpen'')
            \<lparr>getEventSource = Some exTab, getDisplayState = (\<lambda>tab. expanded)\<rparr>]
   \<and> fireListener (TabStateListener expanded (BoundMethod ''onTabOpen''))
         \<lparr>getEventSource = Some exTab, getDisplayState = (\<lambda>tab. collapsed)\<rparr>
       = []
   \<and> fireListener (TabStateListener collapsed (BoundMethod ''onTabClose''))
         \<lparr>getEventSource = Some exTab, getDisplayState = (\<lambda>tab. collapsed)\<rparr>
       = [Invoke (BoundMethod ''onTabClose'')
            \<lparr>getEventSource = Some exTab, getDisplayState = (\<lambda>tab. collapsed)\<rparr>]
   \<and> fireListener (TabStateListener collapsed (BoundMethod ''onTabClose''))
         \<lparr>getEventSource = Some exTab, getDisplayState = (\<lambda>tab. expanded)\<rparr>
       = []"
proof -
  let ?inst = "exampleInstance [''onTabOpen'', ''onTabClose'']"
  let ?open = "\<lparr>functionName = ''onTabOpen'', formTypes = None,
        events = [\<lparr>type = OnTabExpand, componentNames = Some [''T1'']\<rparr>]\<rparr>"
  let ?close = "\<lparr>functionName = ''onTabClose'', formTypes = None,
        events = [\<lparr>type = OnTabCollapse, componentNames = Some [''T1'']\<rparr>]\<rparr>"
  have g: "getFormEvents exTabRegistry 0 = [?open, ?close]"
    by code_simp
  have x: "applyOnTabExpandEvents ?inst (getFormEvents exTabRegistry 0) (exampleForm [exTab])
             Create emptyState
       = Inr (emptyState\<lparr>calls :=
                [TabCall exTab (TabStateListener expanded (BoundMethod ''onTabOpen''))]\<rparr>)"
    by code_simp
  have c: "applyOnTabCollapseEvents ?inst (getFormEvents exTabRegistry 0) (exampleForm [exTab])
             Create emptyState
       = Inr (emptyState\<lparr>calls :=
                [TabCall exTab (TabStateListener collapsed (BoundMethod ''onTabClose''))]\<rparr>)"
    by code_simp
  have t: "exTab \<in> set (getTab (exampleForm [exTab]) [''T1''])" "isTabControl (exampleForm [exTab]) exTab"
    by (simp_all add: exampleForm_def exTab_def byNames_def)
  have m: "member ?inst ''onTabOpen'' = Function" "member ?inst ''onTabClose'' = Function"
    by (simp_all add: exampleInstance_def)
  have a: "isFormTypeAuthorized None Create"
    by (simp add: isFormTypeAuthorized_def)
  note expand = tab_expand_collapse_gating [where inst = ?inst and hs = "getFormEvents exTabRegistry 0"
      and fc = "exampleForm [exTab]" and ft = Create and s = emptyState
      and s' = "emptyState\<lparr>calls :=
                [TabCall exTab (TabStateListener expanded (BoundMethod ''onTabOpen''))]\<rparr>"
      and h = ?open and e = "\<lparr>type = OnTabExpand, componentNames = Some [''T1'']\<rparr>"
      and ns = "[''T1'']" and tab = exTab and st = expanded and handler = "BoundMethod ''onTabOpen''"
      and ctx = "\<lparr>getEventSource = Some exTab, getDisplayState = (\<lambda>tab. expanded)\<rparr>"]
  note collapse = tab_expand_collapse_gating [where inst = ?inst and hs = "getFormEvents exTabRegistry 0"
      and fc = "exampleForm [exTab]" and ft = Create and s = emptyState
      and s' = "emptyState\<lparr>calls :=
                [TabCall exTab (TabStateListener collapsed (BoundMethod ''onTabClose''))]\<rparr>"
      and h = ?close and e = "\<lparr>type = OnTabCollapse, componentNames = Some [''T1'']\<rparr>"
      and ns = "[''T1'']" and tab = exTab and st = collapsed and handler = "BoundMethod ''onTabClose''"
      and ctx = "\<lparr>getEventSource = Some exTab, getDisplayState = (\<lambda>tab. collapsed)\<rparr>"]
  show ?thesis
    using expand collapse x c t m a
    by (simp add: g)
qed

subsection \<open>The output-change pass\<close>

text \<open>
  Claim C1 fails on the code. \<open>applyOnOutputChangeEvents\<close> selects the entries and
  details of kind \<open>OnReadyStateComplete\<close>, not \<open>OnOutputChange\<close>. In this run the
  output-change handler \<open>onPcfChange\<close> is subscribed nowhere, although the form has
  its control, and \<open>addOnOutputChange\<close> is called for the ready-state handler
  \<open>onFrameReady\<close>, with a warning that frame1 is not applicable.
\<close>

theorem output_change_pass_uses_ready_state_kind:
  "dispatcherApply exOutputRegistry (exampleInstance [''onPcfChange'', ''onFrameReady''])
     exOutputForm Create emptyState
   = Inr \<lparr>calls =
            [BatchCall addOnReadyStateComplete [\<lparr>compName = ''frame1'', sorts = [IframeSort]\<rparr>]
               (BoundMethod ''onFrameReady''),
             BatchCall addOnOutputChange [] (BoundMethod ''onFrameReady'')],
          warningCounts = [],
          warned =
            ['' '' @ notFoundMessage ''ContactForm'' [''frame1''] OnReadyStateComplete
                      ''onFrameReady'' Create]\<rparr>"
  by code_simp

subsection \<open>Partly resolved names\<close>

text \<open>
  Claim C4 fails on the code for the kind \<open>OnOutputChange\<close>, by the defect of the
  output-change pass shown above: with the names a, b, c of which the form has the
  control a only, the run makes no call on the host and emits no warning, where the
  claim has one subscription on a and one warning that names b and c.
\<close>

theorem partial_resolution_output_change:
  "dispatcherApply (exPartialRegistry OnOutputChange) (exampleInstance [''onEvent''])
     (exampleForm [\<lparr>compName = ''a'', sorts = [StandardSort]\<rparr>]) Create emptyState
   = Inr emptyState"
  by code_simp

text \<open>
  The same input with the kind \<open>OnChange\<close>, whose pass names its own kind: one
  subscription on the attribute a, and one warning that names b and c, the method,
  the kind and the form type.
\<close>

lemma partial_resolution_on_change:
  "dispatcherApply (exPartialRegistry OnChange) (exampleInstance [''onEvent''])
     (exampleForm [\<lparr>compName = ''a'', sorts = [AttributeSort]\<rparr>]) Create emptyState
   = Inr \<lparr>calls = [BatchCall addOnChange [\<lparr>compName = ''a'', sorts = [AttributeSort]\<rparr>]
                       (BoundMethod ''onEvent'')],
          warningCounts = [],
          warned =
            ['' [D365FormEventDispatcher] ContactForm - Attributes '' @ [CHR 0x22] @ ''b, c''
               @ [CHR 0x22] @ '' not found or not applicable for event '' @ [CHR 0x22]
               @ ''OnChange'' @ [CHR 0x22] @ '' on function '' @ [CHR 0x22] @ ''onEvent''
               @ [CHR 0x22] @ '' and form type Create.'']\<rparr>"
  by code_simp

text \<open>
  The same input with the kind \<open>OnReadyStateComplete\<close>, which two passes select:
  two subscriptions and two warnings for the one detail.
\<close>

lemma partial_resolution_ready_state:
  "dispatcherApply (exPartialRegistry OnReadyStateComplete) (exampleInstance [''onEvent''])
     (exampleForm [\<lparr>compName = ''a'', sorts = [IframeSort]\<rparr>]) Create emptyState
   = Inr \<lparr>calls = [BatchCall addOnReadyStateComplete [\<lparr>compName = ''a'', sorts = [IframeSort]\<rparr>]
                       (BoundMethod ''onEvent''),
                     BatchCall addOnOutputChange [] (BoundMethod ''onEvent'')],
          warningCounts = [],
          warned =
            ['' '' @ notFoundMessage ''ContactForm'' [''b'', ''c''] OnReadyStateComplete
                      ''onEvent'' Create,
             '' '' @ notFoundMessage ''ContactForm'' [''a'', ''b'', ''c''] OnReadyStateComplete
                      ''onEvent'' Create]\<rparr>"
  by code_simp

subsection \<open>Entries without events\<close>

lemma methodBinding_None_iff:
  "(methodBinding reg c f = None) = (f \<notin> functionName ` set (getFormEvents reg c))"
  by (auto simp: methodBinding_def find_None_iff)

text \<open>
  Claim C10. \<open>validateHandlers\<close> selects the entries with an empty \<open>events\<close>
  array, whatever their \<open>formTypes\<close>; an \<open>upsertFunctionEvent\<close> call with neither
  event detail nor form types on a method that has no entry yet creates such an
  entry. If any entry is selected, \<open>validateHandlers\<close> makes one
  \<open>logGroupedWarning\<close> call, whose message carries the names of all selected
  methods, and so queues one message; if none is selected, it changes nothing.
\<close>

theorem validate_reports_every_empty_entry:
  "(methodBinding reg c f = None \<longrightarrow>
      methodBinding (upsertFunctionEvent c f None None reg) c f
        = Some \<lparr>functionName = f, formTypes = None, events = []\<rparr>
      \<and> f \<in> set (map functionName
                     (filter (\<lambda>h. length (events h) = 0)
                        (getFormEvents (upsertFunctionEvent c f None None reg) c))))
   \<and> (filter (\<lambda>h. length (events h) = 0) hs \<noteq> [] \<longrightarrow>
        validateHandlers inst hs s
          = s\<lparr>warningCounts :=
                logGroupedWarning
                  (validateMessage (ctorName inst)
                     (map functionName (filter (\<lambda>h. length (events h) = 0) hs)))
                  (warningCounts s)\<rparr>
        \<and> length (warningCounts (validateHandlers inst hs (s\<lparr>warningCounts := []\<rparr>))) = 1)
   \<and> (filter (\<lambda>h. length (events h) = 0) hs = [] \<longrightarrow> validateHandlers inst hs s = s)
   \<and> validateHandlers inst (map (\<lambda>h. h\<lparr>formTypes := fts h\<rparr>) hs) s = validateHandlers inst hs s"
proof -
  have one: "methodBinding reg c f = None \<longrightarrow>
      methodBinding (upsertFunctionEvent c f None None reg) c f
        = Some \<lparr>functionName = f, formTypes = None, events = []\<rparr>
      \<and> f \<in> set (map functionName
                     (filter (\<lambda>h. length (events h) = 0)
                        (getFormEvents (upsertFunctionEvent c f None None reg) c)))"
  proof
    assume n: "methodBinding reg c f = None"
    then have "find (\<lambda>event. functionName event = f) (getFormEvents reg c) = None"
      by (simp add: methodBinding_def)
    then have "getFormEvents (upsertFunctionEvent c f None None reg) c
        = getFormEvents reg c @ [\<lparr>functionName = f, formTypes = None, events = []\<rparr>]"
      by (simp add: getFormEvents_upsert)
    then show "methodBinding (upsertFunctionEvent c f None None reg) c f
        = Some \<lparr>functionName = f, formTypes = None, events = []\<rparr>
      \<and> f \<in> set (map functionName
                     (filter (\<lambda>h. length (events h) = 0)
                        (getFormEvents (upsertFunctionEvent c f None None reg) c)))"
      using n by (simp add: methodBinding_upsert)
  qed
  have two: "validateHandlers inst (map (\<lambda>h. h\<lparr>formTypes := fts h\<rparr>) hs) s
               = validateHandlers inst hs s"
    by (simp add: validateHandlers_def Let_def filter_map comp_def)
  show ?thesis
    using one two by (simp add: validateHandlers_def Let_def logGroupedWarning_def)
qed

text \<open>
  The methods \<open>first\<close> (registered with nothing) and \<open>second\<close> (filter only) are
  reported together in one message; \<open>third\<close> is subscribed.
\<close>

theorem validate_reports_every_empty_entry_witness:
  "methodBinding (Map.empty :: nat eventRegistry) 0 ''first'' = None
   \<and> methodBinding (upsertFunctionEvent (0::nat) ''first'' None None Map.empty) 0 ''first''
       = Some \<lparr>functionName = ''first'', formTypes = None, events = []\<rparr>
   \<and> map functionName (filter (\<lambda>h. length (events h) = 0) (getFormEvents exBareRegistry 0))
       = [''first'', ''second'']
   \<and> filter (\<lambda>h. length (events h) = 0) (getFormEvents exBareRegistry 0) \<noteq> []
   \<and> validateHandlers (exampleInstance [''first'', ''second'', ''third''])
         (getFormEvents exBareRegistry 0) (emptyState :: Component DispatchState)
       = emptyState\<lparr>warningCounts :=
           [(''[D365FormEventDispatcher] ContactForm.validateHandlers - Methods '' @ [CHR 0x22]
               @ ''first, second'' @ [CHR 0x22] @ '' has @FormTypes but no events.'', 1)]\<rparr>
   \<and> dispatcherApply exBareRegistry (exampleInstance [''first'', ''second'', ''third''])
         (exampleForm []) Create emptyState
       = Inr (emptyState\<lparr>calls := [FormCall addOnLoad (BoundMethod ''third'')],
               warned :=
                 ['' [D365FormEventDispatcher] ContactForm.validateHandlers - Methods ''
                    @ [CHR 0x22] @ ''first, second'' @ [CHR 0x22]
                    @ '' has @FormTypes but no events.'']\<rparr>)"
proof -
  have n: "methodBinding (Map.empty :: nat eventRegistry) 0 ''first'' = None"
    by (simp add: methodBinding_def getFormEvents_def)
  have g: "map functionName (filter (\<lambda>h. length (events h) = 0) (getFormEvents exBareRegistry 0))
       = [''first'', ''second'']"
    by code_simp
  have ne: "filter (\<lambda>h. length (events h) = 0) (getFormEvents exBareRegistry 0) \<noteq> []"
    by code_simp
  have m: "validateMessage ''ContactForm'' [''first'', ''second'']
       = ''[D365FormEventDispatcher] ContactForm.validateHandlers - Methods '' @ [CHR 0x22]
               @ ''first, second'' @ [CHR 0x22] @ '' has @FormTypes but no events.''"
    by code_simp
  have d: "dispatcherApply exBareRegistry (exampleInstance [''first'', ''second'', ''third''])
         (exampleForm []) Create emptyState
       = Inr (emptyState\<lparr>calls := [FormCall addOnLoad (BoundMethod ''third'')],
               warned :=
                 ['' [D365FormEventDispatcher] ContactForm.validateHandlers - Methods ''
                    @ [CHR 0x22] @ ''first, second'' @ [CHR 0x22]
                    @ '' has @FormTypes but no events.'']\<rparr>)"
    by code_simp
  have g': "map functionName (filter (\<lambda>h. events h = []) (getFormEvents exBareRegistry 0))
       = [''first'', ''second'']"
    using g by simp
  show ?thesis
    using validate_reports_every_empty_entry [where reg = "Map.empty :: nat eventRegistry"
        and c = 0 and f = "''first''" and hs = "getFormEvents exBareRegistry 0"
        and inst = "exampleInstance [''first'', ''second'', ''third'']"
        and s = "emptyState :: Component DispatchState" and fts = formTypes] n ne d
    by (simp add: g' m emptyState_def exampleInstance_def logGroupedWarning_def)
qed

end
